theory Spec2Isabelle
  imports Main "HOL-Library.Word" "HOL-Library.Sublist"
begin

section \<open>The mailbox browser of cleu (cmd/read.go)\<close>

text \<open>
  Go's \<open>uint32\<close> is \<open>32 word\<close>: subtraction and addition wrap around, comparison is
  unsigned. Go's \<open>int\<close> is \<open>int\<close>; the conversion \<open>uint32(n)\<close> keeps the low 32 bits,
  which is \<open>word_of_int\<close>. A \<open>time.Time\<close> is an abstract instant, an \<open>int\<close>.
\<close>

type_synonym u32 = "32 word"

subsection \<open>The message (type Email)\<close>

record Email =
  UID :: u32
  Subject :: string
  From :: string
  To :: string
  Date :: int
  Body :: string
  HTMLBody :: string
  TextBody :: string
  ContentType :: string
  Seen :: bool

text \<open>The zero value \<open>var email Email\<close>.\<close>

definition zero_Email :: Email where
  "zero_Email = \<lparr>UID = 0, Subject = [], From = [], To = [], Date = 0, Body = [],
     HTMLBody = [], TextBody = [], ContentType = [], Seen = False\<rparr>"

subsection \<open>Pagination: the range of fetchEmails\<close>

text \<open>
  The sequence range that \<open>fetchEmails\<close> builds for a page, from the message count that
  \<open>Select\<close> reported (non-zero on this path):
  \<^verbatim>\<open>
  end := totalMessages - uint32((page-1)*perPage)
  start := end - uint32(perPage) + 1
  if start < 1 { start = 1 }
  if end > totalMessages { end = totalMessages }
  seqSet.AddRange(start, end)
  \<close>
  All four values are \<open>uint32\<close>. The result is the pair handed to \<open>AddRange\<close>.
\<close>

definition fetch_range :: "u32 \<Rightarrow> int \<Rightarrow> int \<Rightarrow> u32 \<times> u32" where
  "fetch_range totalMessages page perPage =
     (let end0 = totalMessages - word_of_int ((page - 1) * perPage);
          start0 = end0 - word_of_int perPage + 1;
          start = (if start0 < 1 then 1 else start0);
          end = (if end0 > totalMessages then totalMessages else end0)
      in (start, end))"

subsection \<open>The MIME decoder (parseEmailBody)\<close>

text \<open>
  \<open>net/mail\<close>, \<open>mime\<close>, \<open>mime/multipart\<close> and \<open>io\<close> are Go's standard library, not
  code of this program: they are parameters of the model, a record of functions.
  \<^item> \<open>ReadMessage raw\<close> is \<open>mail.ReadMessage\<close>: an error, or the value of the
    \<open>Content-Type\<close> header (empty when absent) with the body reader;
  \<^item> \<open>ParseMediaType v\<close> is \<open>mime.ParseMediaType\<close>: media type, parameters, and whether
    the error is non-nil;
  \<^item> \<open>ReadAll body\<close> is \<open>io.ReadAll\<close> on the message body;
  \<^item> \<open>NewReader body boundary\<close> is the multipart reader, seen as the sequence of the
    results of its successive \<open>NextPart\<close> calls: \<open>io.EOF\<close>, another error, or a part
    with its \<open>Content-Type\<close> header value and the result of \<open>io.ReadAll\<close> on it
    (\<open>None\<close> when reading fails).
\<close>

datatype part_event = EOF | NextPartError | Part string "string option"

record 'b mime_lib =
  ReadMessage :: "string \<Rightarrow> string + string \<times> 'b"
  ParseMediaType :: "string \<Rightarrow> string \<times> (string \<rightharpoonup> string) \<times> bool"
  ReadAll :: "'b \<Rightarrow> string + string"
  NewReader :: "'b \<Rightarrow> string \<Rightarrow> nat \<Rightarrow> part_event"

text \<open>\<open>strings.HasPrefix(s, p)\<close> is \<open>prefix p s\<close>. The body of the loop over the parts:\<close>

definition classify_part :: "'b mime_lib \<Rightarrow> string \<Rightarrow> string \<Rightarrow> Email \<Rightarrow> Email" where
  "classify_part lib partContentType partBody email =
     (let partMediaType = fst (ParseMediaType lib partContentType)
      in if prefix ''text/html'' partMediaType then email\<lparr>HTMLBody := partBody\<rparr>
         else if prefix ''text/plain'' partMediaType then email\<lparr>TextBody := partBody\<rparr>
         else email)"

text \<open>
  The loop \<open>for { part, err := reader.NextPart() ... }\<close>: it ends at \<open>io.EOF\<close> only, any
  other error of \<open>NextPart\<close> or of reading the part goes on with the next call. It need not
  end, so the result is an option, \<open>None\<close> when the loop runs forever.
\<close>

partial_function (option) read_parts ::
  "'b mime_lib \<Rightarrow> (nat \<Rightarrow> part_event) \<Rightarrow> nat \<Rightarrow> Email \<Rightarrow> Email option" where
  "read_parts lib reader i email =
     (case reader i of
        EOF \<Rightarrow> Some email
      | NextPartError \<Rightarrow> read_parts lib reader (Suc i) email
      | Part partContentType r \<Rightarrow>
          (case r of
             None \<Rightarrow> read_parts lib reader (Suc i) email
           | Some partBody \<Rightarrow>
               read_parts lib reader (Suc i) (classify_part lib partContentType partBody email)))"

text \<open>\<open>params["boundary"]\<close>: the empty string when the key is absent.\<close>

definition boundary_param :: "(string \<rightharpoonup> string) \<Rightarrow> string" where
  "boundary_param params = (case params ''boundary'' of None \<Rightarrow> [] | Some b \<Rightarrow> b)"

text \<open>The last statement of \<open>parseEmailBody\<close>: the choice of the display body.\<close>

definition choose_body :: "Email \<Rightarrow> Email" where
  "choose_body email =
     (if TextBody email \<noteq> [] then email\<lparr>Body := TextBody email\<rparr>
      else if HTMLBody email \<noteq> [] then email\<lparr>Body := HTMLBody email\<rparr>
      else email)"

definition parseEmailBody :: "'b mime_lib \<Rightarrow> string \<Rightarrow> (string + Email) option" where
  "parseEmailBody lib rawBody =
     (case ReadMessage lib rawBody of
        Inl err \<Rightarrow> Some (Inl err)
      | Inr (contentType, body) \<Rightarrow>
          (case ParseMediaType lib contentType of
             (mt, params, failed) \<Rightarrow>
               (let mediaType = (if failed then ''text/plain'' else mt);
                    email = zero_Email\<lparr>ContentType := mediaType\<rparr>
                in if prefix ''multipart/'' mediaType then
                     (case read_parts lib (NewReader lib body (boundary_param params)) 0 email of
                        None \<Rightarrow> None
                      | Some email' \<Rightarrow> Some (Inr (choose_body email')))
                   else
                     (case ReadAll lib body of
                        Inl err \<Rightarrow> Some (Inl err)
                      | Inr b \<Rightarrow>
                          Some (Inr (choose_body
                            (if prefix ''text/html'' mediaType then email\<lparr>HTMLBody := b\<rparr>
                             else email\<lparr>TextBody := b\<rparr>)))))))"

subsection \<open>The body fetch (fetchEmailBodyParsed)\<close>

text \<open>
  The session client is a parameter as well: \<open>UidFetch uid\<close> is the list of messages that
  arrive on the channel, each the values of its \<open>Body\<close> map in the order the loop meets
  them. A value is an \<open>io.Reader\<close> with the result of \<open>io.ReadAll\<close> on it, or not a
  reader. The inner loop returns at the first reader; its result is \<open>None\<close> when the loop
  ends without returning, and \<open>Some None\<close> when the decoder does not return.
\<close>

datatype body_value = NotReader | Reader "string + string"

fun scan_body :: "'b mime_lib \<Rightarrow> body_value list \<Rightarrow> (string + Email) option option" where
  "scan_body lib [] = None"
| "scan_body lib (NotReader # vs) = scan_body lib vs"
| "scan_body lib (Reader (Inl err) # vs) = Some (Some (Inl err))"
| "scan_body lib (Reader (Inr rawBody) # vs) =
     Some (case parseEmailBody lib rawBody of
             None \<Rightarrow> None
           | Some (Inl err) \<Rightarrow>
               Some (Inr (zero_Email\<lparr>Body := rawBody, ContentType := ''text/plain''\<rparr>))
           | Some (Inr parsedEmail) \<Rightarrow> Some (Inr parsedEmail))"

fun scan_messages :: "'b mime_lib \<Rightarrow> body_value list list \<Rightarrow> (string + Email) option" where
  "scan_messages lib [] = Some (Inl ''could not load email body'')"
| "scan_messages lib (m # ms) =
     (case scan_body lib m of Some r \<Rightarrow> r | None \<Rightarrow> scan_messages lib ms)"

definition fetchEmailBodyParsed ::
  "'b mime_lib \<Rightarrow> (u32 \<Rightarrow> body_value list list) \<Rightarrow> u32 \<Rightarrow> (string + Email) option" where
  "fetchEmailBodyParsed lib UidFetch uid = scan_messages lib (UidFetch uid)"

subsection \<open>The trash pipeline (moveEmailToTrash)\<close>

text \<open>
  The commands the function sends to the session. The server is a parameter: its answer to
  a command, \<open>None\<close> for success or the text of the error, may depend on everything sent
  before. The commands sent so far are threaded through as the state of the session.
\<close>

datatype imap_cmd = Select string | UidMove u32 string | UidStoreDeleted u32 | Expunge

type_synonym imap_server = "imap_cmd list \<Rightarrow> imap_cmd \<Rightarrow> string option"

definition issue :: "imap_server \<Rightarrow> imap_cmd \<Rightarrow> imap_cmd list \<Rightarrow> string option \<times> imap_cmd list" where
  "issue srv c sent = (srv sent c, sent @ [c])"

definition trashFolders :: "string list" where
  "trashFolders = [''Trash'', ''INBOX.Trash'', ''Deleted Messages'', ''INBOX.Deleted Messages'']"

text \<open>
  The loop over \<open>trashFolders\<close>. \<open>Some folder\<close> is the \<open>return true\<close> inside the loop,
  \<open>None\<close> is the loop running to its end.
\<close>

fun trash_loop ::
  "imap_server \<Rightarrow> u32 \<Rightarrow> string list \<Rightarrow> imap_cmd list \<Rightarrow> string option \<times> imap_cmd list" where
  "trash_loop srv uid [] sent = (None, sent)"
| "trash_loop srv uid (trashFolder # rest) sent =
     (case issue srv (Select trashFolder) sent of
        (Some err, sent1) \<Rightarrow> trash_loop srv uid rest sent1
      | (None, sent1) \<Rightarrow>
          (case issue srv (Select ''INBOX'') sent1 of
             (Some err, sent2) \<Rightarrow> trash_loop srv uid rest sent2
           | (None, sent2) \<Rightarrow>
               (case issue srv (UidMove uid trashFolder) sent2 of
                  (None, sent3) \<Rightarrow> (Some trashFolder, sent3)
                | (Some err, sent3) \<Rightarrow> trash_loop srv uid rest sent3)))"

definition moveEmailToTrash ::
  "imap_server \<Rightarrow> u32 \<Rightarrow> imap_cmd list \<Rightarrow> (bool \<times> string) \<times> imap_cmd list" where
  "moveEmailToTrash srv uid sent =
     (case trash_loop srv uid trashFolders sent of
        (Some trashFolder, sent1) \<Rightarrow> ((True, ''Email moved to '' @ trashFolder), sent1)
      | (None, sent1) \<Rightarrow>
          (case issue srv (Select ''INBOX'') sent1 of
             (Some err, sent2) \<Rightarrow> ((False, ''Failed to select INBOX: '' @ err), sent2)
           | (None, sent2) \<Rightarrow>
               (case issue srv (UidStoreDeleted uid) sent2 of
                  (Some err, sent3) \<Rightarrow>
                    ((False, ''Failed to mark email as deleted: '' @ err), sent3)
                | (None, sent3) \<Rightarrow>
                    (case issue srv Expunge sent3 of
                       (Some err, sent4) \<Rightarrow> ((False, ''Failed to expunge: '' @ err), sent4)
                     | (None, sent4) \<Rightarrow> ((True, ''Email deleted permanently''), sent4)))))"

text \<open>
  The delete operation as the specification words it, for comparison: every candidate
  folder, in the fixed order, is tried with three steps in this order (check that the
  folder exists, select the source mailbox again, move by uid), an attempt ending at its
  first failing step; the first attempt whose three steps succeed ends the operation with
  success; when no attempt succeeds, the three fallback steps (select the source mailbox,
  flag the message as deleted, expunge) run the same way.
\<close>

fun run_steps :: "imap_server \<Rightarrow> imap_cmd list \<Rightarrow> imap_cmd list \<Rightarrow> bool \<times> imap_cmd list" where
  "run_steps srv [] sent = (True, sent)"
| "run_steps srv (c # cs) sent =
     (case srv sent c of
        None \<Rightarrow> run_steps srv cs (sent @ [c])
      | Some err \<Rightarrow> (False, sent @ [c]))"

definition attempt_steps :: "u32 \<Rightarrow> string \<Rightarrow> imap_cmd list" where
  "attempt_steps uid folder = [Select folder, Select ''INBOX'', UidMove uid folder]"

definition fallback_steps :: "u32 \<Rightarrow> imap_cmd list" where
  "fallback_steps uid = [Select ''INBOX'', UidStoreDeleted uid, Expunge]"

fun spec_attempts ::
  "imap_server \<Rightarrow> u32 \<Rightarrow> string list \<Rightarrow> imap_cmd list \<Rightarrow> string option \<times> imap_cmd list" where
  "spec_attempts srv uid [] sent = (None, sent)"
| "spec_attempts srv uid (folder # rest) sent =
     (case run_steps srv (attempt_steps uid folder) sent of
        (True, sent') \<Rightarrow> (Some folder, sent')
      | (False, sent') \<Rightarrow> spec_attempts srv uid rest sent')"

definition spec_delete :: "imap_server \<Rightarrow> u32 \<Rightarrow> imap_cmd list \<Rightarrow> bool \<times> imap_cmd list" where
  "spec_delete srv uid sent =
     (case spec_attempts srv uid
             [''Trash'', ''INBOX.Trash'', ''Deleted Messages'', ''INBOX.Deleted Messages''] sent of
        (Some folder, sent') \<Rightarrow> (True, sent')
      | (None, sent') \<Rightarrow> run_steps srv (fallback_steps uid) sent')"

subsection \<open>The view state machine (type App, App.Update)\<close>

datatype appState = listView | emailView | deleteConfirmView

text \<open>The two kinds of list item: \<open>Email\<close> and \<open>LoadMoreItem\<close>.\<close>

datatype item = EmailItem Email | LoadMoreItem

text \<open>
  The title of the list, with the arguments of its format string instead of the text:
  the number of loaded messages, the total, and whether the suffix for more messages is
  appended.
\<close>

datatype list_title = TitleLoading | TitleRefreshing | TitleCount nat u32 bool

datatype msg =
    WindowSizeMsg int int
  | emailsLoadedMsg "Email list" u32 bool
  | errorMsg string
  | emailBodyLoadedMsg u32 Email
  | emailDeletedMsg u32 bool string
  | clearSuccessMsg
  | KeyMsg string
  | otherMsg

text \<open>
  The commands \<open>Update\<close> returns: the three asynchronous tasks of the program, the quit
  and timer commands of the framework, and whatever command a widget hands back.
\<close>

datatype cmd =
    loadEmails int bool
  | loadEmailBody u32
  | deleteEmail u32
  | Quit
  | Tick
  | listCmd
  | viewportCmd

text \<open>
  The list widget (\<open>bubbles/list\<close>) and the viewport are library code: the widget's state
  is a type parameter and its operations are a record of functions. \<open>listUpdate\<close> and
  \<open>viewportUpdate\<close> tell whether the widget returns a command.
\<close>

record 'l widget_ops =
  Index :: "'l \<Rightarrow> nat"
  Items :: "'l \<Rightarrow> item list"
  SelectedItem :: "'l \<Rightarrow> item option"
  SetItems :: "item list \<Rightarrow> 'l \<Rightarrow> 'l"
  SetSize :: "int \<Rightarrow> int \<Rightarrow> 'l \<Rightarrow> 'l"
  listUpdate :: "msg \<Rightarrow> 'l \<Rightarrow> 'l \<times> bool"
  viewportUpdate :: "msg \<Rightarrow> bool"

text \<open>
  The fields of \<open>App\<close> that \<open>Update\<close> reads or writes. \<open>viewport\<close> is the message whose
  formatted text the viewport shows. The connection parameters and the session client are
  left out: \<open>Update\<close> only uses them to log out on quit.

  \<open>emailToDelete\<close> is a pointer in the program, \<open>nil\<close> or the address of a message;
  here it is the message it points to. From the list view the pointer is to a copy of the
  selected item. From the detail view it is the address of an element of \<open>a.emails\<close>;
  while the confirmation view lasts, the program writes to that element only in the
  \<open>emailBodyLoadedMsg\<close> case, which sets the four body fields and not the uid, so the
  uid read through the pointer is the uid of the message recorded here.
\<close>

record 'l App =
  emails :: "Email list"
  list_model :: 'l
  title :: list_title
  viewport :: "Email option"
  ready :: bool
  loading :: bool
  loadingMore :: bool
  err :: "string option"
  state :: appState
  totalMessages :: u32
  emailsPerPage :: int
  currentPage :: int
  hasMore :: bool
  showDeleteConfirm :: bool
  emailToDelete :: "Email option"
  deleteConfirmIndex :: int
  deletingEmail :: bool
  deleteSuccess :: bool
  deleteSuccessMessage :: string

definition NewApp :: "'l \<Rightarrow> 'l App" where
  "NewApp l = \<lparr>emails = [], list_model = l, title = TitleLoading, viewport = None,
     ready = False, loading = True, loadingMore = False, err = None, state = listView,
     totalMessages = 0, emailsPerPage = 50, currentPage = 1, hasMore = False,
     showDeleteConfirm = False, emailToDelete = None, deleteConfirmIndex = 0,
     deletingEmail = False, deleteSuccess = False, deleteSuccessMessage = []\<rparr>"

definition updateEmailList :: "'l widget_ops \<Rightarrow> 'l App \<Rightarrow> 'l App" where
  "updateEmailList W a =
     a\<lparr>list_model :=
         SetItems W (map EmailItem (emails a) @ (if hasMore a then [LoadMoreItem] else []))
           (list_model a)\<rparr>"

text \<open>
  The loop of the \<open>emailBodyLoadedMsg\<close> case: the first message with the uid gets the four
  body fields of the loaded body, then \<open>break\<close>.
\<close>

fun set_body :: "u32 \<Rightarrow> Email \<Rightarrow> Email list \<Rightarrow> Email list" where
  "set_body uid body [] = []"
| "set_body uid body (email # rest) =
     (if UID email = uid
      then email\<lparr>Body := Body body, HTMLBody := HTMLBody body, TextBody := TextBody body,
             ContentType := ContentType body\<rparr> # rest
      else email # set_body uid body rest)"

text \<open>
  The loop of the \<open>emailDeletedMsg\<close> case: the first message with the uid is cut out of the
  slice, then \<open>break\<close>.
\<close>

fun remove_uid :: "u32 \<Rightarrow> Email list \<Rightarrow> Email list" where
  "remove_uid uid [] = []"
| "remove_uid uid (email # rest) =
     (if UID email = uid then rest else email # remove_uid uid rest)"

text \<open>
  The cases of the type switch. Each gives the new state and \<open>Some c\<close> when the case
  returns the command \<open>c\<close> itself (\<open>Some None\<close> is \<open>return a, nil\<close>), or \<open>None\<close> when it
  falls through to the end of \<open>Update\<close>.
\<close>

definition on_WindowSize :: "'l widget_ops \<Rightarrow> int \<Rightarrow> int \<Rightarrow> 'l App \<Rightarrow> 'l App" where
  "on_WindowSize W width height a =
     a\<lparr>list_model := SetSize W width (height - 2) (list_model a), ready := True\<rparr>"

definition on_emailsLoaded :: "'l widget_ops \<Rightarrow> Email list \<Rightarrow> u32 \<Rightarrow> bool \<Rightarrow> 'l App \<Rightarrow> 'l App" where
  "on_emailsLoaded W es totalMsgs isLoadMore a =
     (let a1 = a\<lparr>loading := False, loadingMore := False, totalMessages := totalMsgs,
                  emails := (if isLoadMore then emails a @ es else es)\<rparr>;
          loadedCount = length (emails a1);
          a2 = a1\<lparr>hasMore := ((of_nat loadedCount :: u32) < totalMessages a1)\<rparr>;
          a3 = a2\<lparr>title := TitleCount loadedCount (totalMessages a2) (hasMore a2)\<rparr>
      in updateEmailList W a3)"

definition on_emailBodyLoaded :: "'l widget_ops \<Rightarrow> u32 \<Rightarrow> Email \<Rightarrow> 'l App \<Rightarrow> 'l App" where
  "on_emailBodyLoaded W uid body a =
     (let a1 = a\<lparr>emails := set_body uid body (emails a)\<rparr>
      in if state a1 = emailView \<and> length (emails a1) > 0
            \<and> Index W (list_model a1) < length (emails a1)
         then (let selectedEmail = emails a1 ! Index W (list_model a1)
               in if UID selectedEmail = uid then a1\<lparr>viewport := Some selectedEmail\<rparr> else a1)
         else a1)"

definition on_emailDeleted ::
  "'l widget_ops \<Rightarrow> u32 \<Rightarrow> bool \<Rightarrow> string \<Rightarrow> 'l App \<Rightarrow> 'l App \<times> cmd option option" where
  "on_emailDeleted W uid success message a =
     (let a1 = a\<lparr>deletingEmail := False, showDeleteConfirm := False, state := listView\<rparr>
      in if success then
           (let a2 = updateEmailList W (a1\<lparr>emails := remove_uid uid (emails a1)\<rparr>);
                a3 = a2\<lparr>totalMessages := totalMessages a2 - 1\<rparr>;
                a4 = a3\<lparr>title := TitleCount (length (emails a3)) (totalMessages a3) (hasMore a3)\<rparr>
            in (a4\<lparr>deleteSuccess := True, deleteSuccessMessage := message\<rparr>, Some (Some Tick)))
         else (a1\<lparr>err := Some (''failed to delete email: '' @ message)\<rparr>, None))"

definition on_error :: "string \<Rightarrow> 'l App \<Rightarrow> 'l App" where
  "on_error e a = a\<lparr>err := Some e, loading := False, loadingMore := False, deletingEmail := False\<rparr>"

text \<open>The keys while \<open>a.state == deleteConfirmView\<close>; every path returns.\<close>

definition on_key_confirm :: "string \<Rightarrow> 'l App \<Rightarrow> 'l App \<times> cmd option" where
  "on_key_confirm k a =
     (if k \<in> {''left'', ''h'', ''right'', ''l''} then
        (a\<lparr>deleteConfirmIndex := (if deleteConfirmIndex a = 0 then 1 else 0)\<rparr>, None)
      else if k = ''enter'' then
        (case emailToDelete a of
           Some target \<Rightarrow>
             (if deleteConfirmIndex a = 1
              then (a\<lparr>deletingEmail := True\<rparr>, Some (deleteEmail (UID target)))
              else (a\<lparr>showDeleteConfirm := False, state := listView, emailToDelete := None\<rparr>, None))
         | None \<Rightarrow>
             (a\<lparr>showDeleteConfirm := False, state := listView, emailToDelete := None\<rparr>, None))
      else if k \<in> {''esc'', ''q''} then
        (a\<lparr>showDeleteConfirm := False, state := listView, emailToDelete := None\<rparr>, None)
      else (a, None))"

definition on_key_enter :: "'l widget_ops \<Rightarrow> 'l App \<Rightarrow> 'l App \<times> cmd option option" where
  "on_key_enter W a =
     (if state a = listView \<and> Index W (list_model a) < length (Items W (list_model a)) then
        (if SelectedItem W (list_model a) = Some LoadMoreItem then
           (if \<not> loadingMore a
            then (let a1 = a\<lparr>loadingMore := True, currentPage := currentPage a + 1\<rparr>
                  in (a1, Some (Some (loadEmails (currentPage a1) True))))
            else (a, Some None))
         else if Index W (list_model a) < length (emails a) then
           (let selectedEmail = emails a ! Index W (list_model a);
                a1 = a\<lparr>state := emailView, viewport := Some selectedEmail\<rparr>
            in if Body selectedEmail = []
               then (a1, Some (Some (loadEmailBody (UID selectedEmail))))
               else (a1, None))
         else (a, None))
      else (a, None))"

definition on_key_d :: "'l widget_ops \<Rightarrow> 'l App \<Rightarrow> 'l App" where
  "on_key_d W a =
     (if (state a = listView \<or> state a = emailView) \<and> length (emails a) > 0 then
        (let target =
               (if state a = emailView \<and> Index W (list_model a) < length (emails a)
                then Some (emails a ! Index W (list_model a))
                else if state a = listView \<and> Index W (list_model a) < length (emails a)
                then (case SelectedItem W (list_model a) of
                        Some (EmailItem email) \<Rightarrow> Some email
                      | _ \<Rightarrow> None)
                else None)
         in case target of
              Some email \<Rightarrow>
                a\<lparr>emailToDelete := Some email, showDeleteConfirm := True,
                  state := deleteConfirmView\<rparr>
            | None \<Rightarrow> a)
      else a)"

definition on_key :: "'l widget_ops \<Rightarrow> string \<Rightarrow> 'l App \<Rightarrow> 'l App \<times> cmd option option" where
  "on_key W k a =
     (if state a = deleteConfirmView then
        (case on_key_confirm k a of (a', c) \<Rightarrow> (a', Some c))
      else if k \<in> {''ctrl+c'', ''q''} then (a, Some (Some Quit))
      else if k = ''enter'' then on_key_enter W a
      else if k \<in> {''esc'', ''backspace''} then
        ((if state a = emailView then a\<lparr>state := listView\<rparr> else a), None)
      else if k = ''d'' then (on_key_d W a, None)
      else if k = ''r'' then
        (if state a = listView \<and> \<not> loading a
         then (a\<lparr>loading := True, currentPage := 1, title := TitleRefreshing\<rparr>,
               Some (Some (loadEmails 1 False)))
         else (a, None))
      else (a, None))"

definition handle :: "'l widget_ops \<Rightarrow> msg \<Rightarrow> 'l App \<Rightarrow> 'l App \<times> cmd option option" where
  "handle W m a =
     (case m of
        WindowSizeMsg width height \<Rightarrow> (on_WindowSize W width height a, None)
      | emailsLoadedMsg es totalMsgs isLoadMore \<Rightarrow> (on_emailsLoaded W es totalMsgs isLoadMore a, None)
      | emailBodyLoadedMsg uid body \<Rightarrow> (on_emailBodyLoaded W uid body a, None)
      | emailDeletedMsg uid success message \<Rightarrow> on_emailDeleted W uid success message a
      | clearSuccessMsg \<Rightarrow> (a\<lparr>deleteSuccess := False, deleteSuccessMessage := []\<rparr>, None)
      | errorMsg e \<Rightarrow> (on_error e a, None)
      | KeyMsg k \<Rightarrow> on_key W k a
      | otherMsg \<Rightarrow> (a, None))"

text \<open>The end of \<open>Update\<close>: the message goes to the widget of the current view.\<close>

definition forward :: "'l widget_ops \<Rightarrow> msg \<Rightarrow> 'l App \<Rightarrow> 'l App \<times> cmd option" where
  "forward W m a =
     (if state a = listView then
        (case listUpdate W m (list_model a) of
           (l, c) \<Rightarrow> (a\<lparr>list_model := l\<rparr>, if c then Some listCmd else None))
      else if state a = emailView then
        (a, if viewportUpdate W m then Some viewportCmd else None)
      else (a, None))"

definition Update :: "'l widget_ops \<Rightarrow> msg \<Rightarrow> 'l App \<Rightarrow> 'l App \<times> cmd option" where
  "Update W m a =
     (case handle W m a of
        (a', Some c) \<Rightarrow> (a', c)
      | (a', None) \<Rightarrow> forward W m a')"

text \<open>
  The task that \<open>a.deleteEmail(uid)\<close> returns: it runs the trash pipeline, writes
  \<open>a.deleteConfirmIndex = 0\<close> and produces the completion message.
\<close>

definition run_deleteEmail ::
  "imap_server \<Rightarrow> u32 \<Rightarrow> imap_cmd list \<Rightarrow> 'l App \<Rightarrow> ('l App \<times> msg) \<times> imap_cmd list" where
  "run_deleteEmail srv uid sent a =
     (case moveEmailToTrash srv uid sent of
        ((success, message), sent') \<Rightarrow>
          ((a\<lparr>deleteConfirmIndex := 0\<rparr>, emailDeletedMsg uid success message), sent'))"

text \<open>The task that \<open>a.loadEmailBody(uid)\<close> returns; \<open>None\<close> when the decoder does not return.\<close>

definition run_loadEmailBody ::
  "'b mime_lib \<Rightarrow> (u32 \<Rightarrow> body_value list list) \<Rightarrow> u32 \<Rightarrow> msg option" where
  "run_loadEmailBody lib UidFetch uid =
     (case fetchEmailBodyParsed lib UidFetch uid of
        None \<Rightarrow> None
      | Some (Inl e) \<Rightarrow> Some (errorMsg e)
      | Some (Inr email) \<Rightarrow> Some (emailBodyLoadedMsg uid email))"

text \<open>
  The states the program can be in: it starts in \<open>NewApp\<close>, the event loop applies
  \<open>Update\<close> to one message after the other, whatever the message, and a running delete
  task writes \<open>deleteConfirmIndex\<close> at some moment in between.
\<close>

inductive reachable :: "'l widget_ops \<Rightarrow> 'l \<Rightarrow> 'l App \<Rightarrow> bool" for W :: "'l widget_ops" and l :: 'l where
  reach_init: "reachable W l (NewApp l)"
| reach_update: "reachable W l a \<Longrightarrow> reachable W l (fst (Update W m a))"
| reach_task: "reachable W l a \<Longrightarrow> reachable W l (a\<lparr>deleteConfirmIndex := 0\<rparr>)"

text \<open>A run of the event loop over a list of messages, with the commands it returned.\<close>

fun run :: "'l widget_ops \<Rightarrow> msg list \<Rightarrow> 'l App \<Rightarrow> 'l App \<times> cmd option list" where
  "run W [] a = (a, [])"
| "run W (m # ms) a =
     (case Update W m a of
        (a', c) \<Rightarrow> (case run W ms a' of (a'', cs) \<Rightarrow> (a'', c # cs)))"

text \<open>
  A list widget without a filter, for concrete runs: the items and the cursor; the
  selected item is the item under the cursor, keys \<open>down\<close> and \<open>up\<close> move the cursor.
\<close>

record plain_list =
  pl_items :: "item list"
  pl_cursor :: nat

definition plain_widget :: "plain_list widget_ops" where
  "plain_widget = \<lparr>
     Index = pl_cursor,
     Items = pl_items,
     SelectedItem = (\<lambda>l. if pl_cursor l < length (pl_items l)
                          then Some (pl_items l ! pl_cursor l) else None),
     SetItems = (\<lambda>its l. l\<lparr>pl_items := its\<rparr>),
     SetSize = (\<lambda>w h l. l),
     listUpdate = (\<lambda>m l.
       (if m = KeyMsg ''down'' \<and> Suc (pl_cursor l) < length (pl_items l)
        then l\<lparr>pl_cursor := Suc (pl_cursor l)\<rparr>
        else if m = KeyMsg ''up'' then l\<lparr>pl_cursor := pl_cursor l - 1\<rparr>
        else l, False)),
     viewportUpdate = (\<lambda>m. False)\<rparr>"

text \<open>Two messages and an empty list widget, for concrete runs.\<close>

definition mail1 :: Email where
  "mail1 = zero_Email\<lparr>UID := 1, Subject := ''Hello'', From := ''Ann'', Date := 20\<rparr>"

definition mail2 :: Email where
  "mail2 = zero_Email\<lparr>UID := 2, Subject := ''Minutes'', From := ''Bob'', Date := 10,
     Body := ''See below'', TextBody := ''See below'', ContentType := ''text/plain''\<rparr>"

definition pl0 :: plain_list where
  "pl0 = \<lparr>pl_items = [], pl_cursor = 0\<rparr>"

text \<open>
  The invariant of the confirmation view: in that view the target of the deletion is set.
\<close>

definition confirm_inv :: "'l App \<Rightarrow> bool" where
  "confirm_inv a = (state a = deleteConfirmView \<longrightarrow> emailToDelete a \<noteq> None)"


definition refresh_run :: "msg list" where
  "refresh_run = [emailsLoadedMsg [mail1] 1 False, KeyMsg ''r'', KeyMsg ''d'',
     emailsLoadedMsg [] 0 False]"

definition confirm_yes_run :: "msg list" where
  "confirm_yes_run = [emailsLoadedMsg [mail1] 1 False, KeyMsg ''d'', KeyMsg ''right'',
     KeyMsg ''enter'']"

definition double_enter_run :: "msg list" where
  "double_enter_run = [emailsLoadedMsg [mail1] 1 False, KeyMsg ''d'', KeyMsg ''right'',
     KeyMsg ''enter'', KeyMsg ''enter'']"

definition delete_done :: msg where
  "delete_done = emailDeletedMsg 1 True ''Email moved to Trash''"

text \<open>
  The decoder as the specification words it, for comparison: the parts of a multipart
  message that were read, each with its own declared media type; the two kinds; the body
  of the last part of a kind, or the empty string when there is none.
\<close>

definition is_html :: "string \<Rightarrow> bool" where
  "is_html mediaType = prefix ''text/html'' mediaType"

definition is_plain :: "string \<Rightarrow> bool" where
  "is_plain mediaType = prefix ''text/plain'' mediaType"

fun read_ok_parts :: "'b mime_lib \<Rightarrow> part_event list \<Rightarrow> (string \<times> string) list" where
  "read_ok_parts lib [] = []"
| "read_ok_parts lib (Part partContentType (Some partBody) # evs) =
     (fst (ParseMediaType lib partContentType), partBody) # read_ok_parts lib evs"
| "read_ok_parts lib (ev # evs) = read_ok_parts lib evs"

definition last_of_kind :: "(string \<Rightarrow> bool) \<Rightarrow> (string \<times> string) list \<Rightarrow> string" where
  "last_of_kind kind parts =
     (let ps = filter (\<lambda>p. kind (fst p)) parts in if ps = [] then [] else snd (last ps))"

text \<open>One round of the loop of \<open>read_parts\<close>, as a function of the event.\<close>

definition part_step :: "'b mime_lib \<Rightarrow> Email \<Rightarrow> part_event \<Rightarrow> Email" where
  "part_step lib email ev =
     (case ev of
        Part partContentType (Some partBody) \<Rightarrow> classify_part lib partContentType partBody email
      | _ \<Rightarrow> email)"



text \<open>
  Four raw messages, and the answers of the library on them: a multipart message with a
  plain part "Hello" and an HTML part, an HTML message, an HTML message whose
  \<open>Content-Type\<close> value does not parse (a parameter without a value, for which
  \<open>mime.ParseMediaType\<close> returns the media type and an error), and bytes without a header
  block. \<open>sample_fetch\<close> delivers them for the uids 1 to 4.
\<close>

definition crlf :: string where
  "crlf = [CHR 0x0D, CHR 0x0A]"

definition multipart_body :: string where
  "multipart_body = ''--x'' @ crlf @ ''Content-Type: text/plain'' @ crlf @ crlf @ ''Hello'' @ crlf
     @ ''--x'' @ crlf @ ''Content-Type: text/html'' @ crlf @ crlf @ ''<p>Hello</p>'' @ crlf
     @ ''--x--''"

definition raw_multipart :: string where
  "raw_multipart = ''Content-Type: multipart/alternative; boundary=x'' @ crlf @ crlf @ multipart_body"

definition raw_html :: string where
  "raw_html = ''Content-Type: text/html'' @ crlf @ crlf @ ''<b>Hi</b>''"

definition raw_bad_ctype :: string where
  "raw_bad_ctype = ''Content-Type: text/html; charset'' @ crlf @ crlf @ ''<b>Hi</b>''"

definition raw_garbage :: string where
  "raw_garbage = ''no header here''"

definition sample_lib :: "string mime_lib" where
  "sample_lib = \<lparr>
     ReadMessage = (\<lambda>raw.
       if raw = raw_multipart then Inr (''multipart/alternative; boundary=x'', multipart_body)
       else if raw = raw_html then Inr (''text/html'', ''<b>Hi</b>'')
       else if raw = raw_bad_ctype then Inr (''text/html; charset'', ''<b>Hi</b>'')
       else Inl ''malformed MIME header line''),
     ParseMediaType = (\<lambda>v.
       if v = ''multipart/alternative; boundary=x''
       then (''multipart/alternative'', [''boundary'' \<mapsto> ''x''], False)
       else if v = ''text/html; charset'' then (''text/html'', Map.empty, True)
       else (v, Map.empty, False)),
     ReadAll = Inr,
     NewReader = (\<lambda>body boundary n.
       if body = multipart_body \<and> boundary = ''x''
       then (if n = 0 then Part ''text/plain'' (Some ''Hello'')
             else if n = 1 then Part ''text/html'' (Some ''<p>Hello</p>'')
             else EOF)
       else NextPartError)\<rparr>"



text \<open>
  Two servers: one where of the candidate folders only \<open>INBOX.Trash\<close> exists, one with
  no trash folder at all.
\<close>

definition only_inbox_trash :: imap_server where
  "only_inbox_trash sent c =
     (case c of
        Select folder \<Rightarrow>
          (if folder = ''INBOX'' \<or> folder = ''INBOX.Trash'' then None
           else Some ''no such mailbox'')
      | _ \<Rightarrow> None)"

definition no_trash_folder :: imap_server where
  "no_trash_folder sent c =
     (case c of
        Select folder \<Rightarrow> (if folder = ''INBOX'' then None else Some ''no such mailbox'')
      | UidMove uid folder \<Rightarrow> Some ''no such mailbox''
      | _ \<Rightarrow> None)"

text \<open>
  \<open>emptied_run\<close>: the first page brings one of two messages; "load more" is chosen and
  its reply is an empty mailbox with the count 0, which is appended; then the delete key on
  the loaded message, the choice moved to yes, the confirm key.
\<close>

definition emptied_run :: "msg list" where
  "emptied_run = [emailsLoadedMsg [mail2] 2 False, KeyMsg ''down'', KeyMsg ''enter'',
     emailsLoadedMsg [] 0 True, KeyMsg ''up'', KeyMsg ''d'', KeyMsg ''right'', KeyMsg ''enter'']"



text \<open>
  A message declared \<open>multipart/mixed\<close> without a boundary parameter, and the answers of
  the library on it: the part reader of an empty boundary returns the same error at every
  call of \<open>NextPart\<close>.
\<close>

definition raw_no_boundary :: string where
  "raw_no_boundary = ''Content-Type: multipart/mixed'' @ crlf @ crlf @ ''Hello''"

definition no_boundary_lib :: "string mime_lib" where
  "no_boundary_lib = \<lparr>
     ReadMessage = (\<lambda>raw.
       if raw = raw_no_boundary then Inr (''multipart/mixed'', ''Hello'')
       else Inl ''malformed MIME header line''),
     ParseMediaType = (\<lambda>v. (v, Map.empty, False)),
     ReadAll = Inr,
     NewReader = (\<lambda>body boundary n. NextPartError)\<rparr>"

definition no_boundary_fetch :: "u32 \<Rightarrow> body_value list list" where
  "no_boundary_fetch uid = [[Reader (Inr raw_no_boundary)]]"

section \<open>Pagination\<close>

text \<open>
  While a whole page still fits below the page's upper end, the range is the one the
  cursor is meant to denote: \<open>[total - N*size + 1, total - (N-1)*size]\<close>.
\<close>

lemma uint_woi: "0 \<le> k \<Longrightarrow> k \<le> uint (t::u32) \<Longrightarrow> uint (word_of_int k :: u32) = k"
  using uint_lt2p [of t] by (simp add: uint_word_of_int take_bit_int_eq_self)
lemma uint_sub_woi: "0 \<le> k \<Longrightarrow> k \<le> uint (t::u32) \<Longrightarrow> uint (t - word_of_int k) = uint t - k"
  by (metis no_ulen_sub uint_minus_simple_iff uint_woi)

lemma fetch_range_full_page:
  assumes "0 < page" and "0 < perPage" and "page * perPage \<le> uint tot"
  shows "fetch_range tot page perPage =
           (word_of_int (uint tot - page * perPage + 1),
            word_of_int (uint tot - (page - 1) * perPage))"
proof -
  define k where "k = (page - 1) * perPage"
  have pk: "page * perPage = k + perPage"
    by (simp add: k_def left_diff_distrib)
  have nn: "0 \<le> k"
    using assms by (simp add: k_def)
  have le: "k \<le> uint tot"
    using assms pk by simp
  define e where "e = tot - word_of_int k"
  have ue: "uint e = uint tot - k"
    unfolding e_def using nn le by (rule uint_sub_woi)
  have e_le: "\<not> tot < e"
    using ue nn by (simp add: word_less_def)
  have e_int: "e = word_of_int (uint tot - k)"
    by (simp add: e_def)
  have ple: "perPage \<le> uint e"
    using ue assms pk by simp
  have us0: "uint (e - word_of_int perPage) = uint e - perPage"
    using assms ple by (intro uint_sub_woi) simp_all
  define s where "s = e - word_of_int perPage + 1"
  have s_int: "s = word_of_int (uint tot - page * perPage + 1)"
    by (simp add: s_def e_int pk)
  have pp: "1 \<le> page * perPage"
    unfolding pk using nn assms(2) by linarith
  have us: "uint s = uint tot - page * perPage + 1"
    unfolding s_int using assms(3) pp by (intro uint_woi [of _ tot]) simp_all
  have s_ge: "\<not> s < 1"
    using us assms(3) by (simp add: word_less_def)
  show ?thesis
    using e_le s_ge
    unfolding fetch_range_def Let_def k_def [symmetric] e_def [symmetric] s_def [symmetric]
    by (simp add: s_int e_int)
qed

text \<open>
  C1. The claim: page \<open>N\<close> covers \<open>[total - N*size + 1, total - (N-1)*size]\<close> clamped to
  \<open>[1, total]\<close>, so that for 120 messages and pages of 50 the ranges are 71--120, 21--70 and
  1--20. The code computes the first two, and for page 3 the pair (4294967267, 20): the
  lower end \<open>20 - 50 + 1\<close> wraps around in \<open>uint32\<close>, and the guard \<open>start < 1\<close> does not
  see it.
\<close>

theorem fetch_range_last_page_wraps:
  "fetch_range 120 1 50 = (71, 120) \<and> fetch_range 120 2 50 = (21, 70) \<and>
   fetch_range 120 3 50 = (4294967267, 20) \<and> fetch_range 120 3 50 \<noteq> (1, 20)"
  by (simp add: fetch_range_def Let_def)

section \<open>Completion of a delete\<close>

lemma remove_uid_split:
  "uid \<in> UID ` set es \<Longrightarrow>
     \<exists>pre x post. es = pre @ x # post \<and> UID x = uid \<and> (\<forall>e\<in>set pre. UID e \<noteq> uid)
        \<and> remove_uid uid es = pre @ post"
proof (induction es)
  case Nil
  then show ?case by simp
next
  case (Cons e es)
  show ?case
  proof (cases "UID e = uid")
    case True
    then have "e # es = [] @ e # es \<and> UID e = uid \<and> (\<forall>x\<in>set []. UID x \<noteq> uid)
        \<and> remove_uid uid (e # es) = [] @ es"
      by simp
    then show ?thesis by blast
  next
    case False
    with Cons.prems have "uid \<in> UID ` set es" by auto
    from Cons.IH [OF this] obtain pre x post where
      h: "es = pre @ x # post" "UID x = uid" "\<forall>e\<in>set pre. UID e \<noteq> uid"
         "remove_uid uid es = pre @ post"
      by blast
    with False have "e # es = (e # pre) @ x # post \<and> UID x = uid
        \<and> (\<forall>y\<in>set (e # pre). UID y \<noteq> uid) \<and> remove_uid uid (e # es) = (e # pre) @ post"
      by simp
    then show ?thesis by blast
  qed
qed

lemma Update_deleted_success:
  "fst (Update W (emailDeletedMsg uid True message) a) =
     (updateEmailList W (a\<lparr>deletingEmail := False, showDeleteConfirm := False, state := listView,
         emails := remove_uid uid (emails a)\<rparr>))
       \<lparr>totalMessages := totalMessages a - 1,
        title := TitleCount (length (remove_uid uid (emails a))) (totalMessages a - 1) (hasMore a),
        deleteSuccess := True, deleteSuccessMessage := message\<rparr>"
  by (simp add: Update_def handle_def on_emailDeleted_def Let_def updateEmailList_def)

lemma Update_deleted_failure:
  "fst (Update W (emailDeletedMsg uid False message) a) =
     a\<lparr>deletingEmail := False, showDeleteConfirm := False, state := listView,
       err := Some (''failed to delete email: '' @ message),
       list_model := fst (listUpdate W (emailDeletedMsg uid False message) (list_model a))\<rparr>"
  by (simp add: Update_def handle_def on_emailDeleted_def Let_def forward_def split: prod.splits)

text \<open>
  What the completion of a delete does in general. When it completes with success for a
  uid that is in the index, the first message with that uid, wherever it stands in the list, is cut out, every other message
  stays in place, and the total goes down by one (in \<open>uint32\<close>; by one as a number when
  it was not 0); the view is the list again. When it completes with failure, the messages,
  the total and the "more" flag are unchanged, the error is set and the view is the list.
\<close>

theorem delete_completion:
  fixes W :: "'l widget_ops" and a :: "'l App" and uid :: u32 and message :: string
  defines "ok \<equiv> fst (Update W (emailDeletedMsg uid True message) a)"
      and "ko \<equiv> fst (Update W (emailDeletedMsg uid False message) a)"
  shows "(uid \<in> UID ` set (emails a) \<longrightarrow>
            (\<exists>pre x post. emails a = pre @ x # post \<and> UID x = uid
                \<and> (\<forall>e\<in>set pre. UID e \<noteq> uid) \<and> emails ok = pre @ post)
            \<and> length (emails ok) + 1 = length (emails a))
       \<and> totalMessages ok = totalMessages a - 1
       \<and> (totalMessages a \<noteq> 0 \<longrightarrow> unat (totalMessages ok) + 1 = unat (totalMessages a))
       \<and> state ok = listView
       \<and> emails ko = emails a \<and> totalMessages ko = totalMessages a \<and> hasMore ko = hasMore a
       \<and> err ko \<noteq> None \<and> state ko = listView"
proof -
  have e_ok: "emails ok = remove_uid uid (emails a)"
    by (simp add: ok_def Update_deleted_success updateEmailList_def)
  have t_ok: "totalMessages ok = totalMessages a - 1"
    by (simp add: ok_def Update_deleted_success updateEmailList_def)
  have s_ok: "state ok = listView"
    by (simp add: ok_def Update_deleted_success updateEmailList_def)
  have c1: "uid \<in> UID ` set (emails a) \<longrightarrow>
            (\<exists>pre x post. emails a = pre @ x # post \<and> UID x = uid
                \<and> (\<forall>e\<in>set pre. UID e \<noteq> uid) \<and> emails ok = pre @ post)
            \<and> length (emails ok) + 1 = length (emails a)"
  proof
    assume "uid \<in> UID ` set (emails a)"
    from remove_uid_split [OF this] obtain pre x post where
      h: "emails a = pre @ x # post" "UID x = uid" "\<forall>e\<in>set pre. UID e \<noteq> uid"
         "remove_uid uid (emails a) = pre @ post"
      by blast
    then have "length (emails ok) + 1 = length (emails a)"
      by (simp add: e_ok)
    moreover have "\<exists>pre x post. emails a = pre @ x # post \<and> UID x = uid
                \<and> (\<forall>e\<in>set pre. UID e \<noteq> uid) \<and> emails ok = pre @ post"
      using h e_ok by metis
    ultimately show "(\<exists>pre x post. emails a = pre @ x # post \<and> UID x = uid
                \<and> (\<forall>e\<in>set pre. UID e \<noteq> uid) \<and> emails ok = pre @ post)
            \<and> length (emails ok) + 1 = length (emails a)"
      by blast
  qed
  have c3: "totalMessages a \<noteq> 0 \<longrightarrow> unat (totalMessages ok) + 1 = unat (totalMessages a)"
    unfolding t_ok using unat_gt_0 [of "totalMessages a"] by (auto simp: unat_minus_one)
  have e_ko: "emails ko = emails a \<and> totalMessages ko = totalMessages a \<and> hasMore ko = hasMore a
       \<and> err ko \<noteq> None \<and> state ko = listView"
    by (simp add: ko_def Update_deleted_failure)
  show ?thesis
    using c1 t_ok c3 s_ok e_ko by blast
qed

theorem delete_completion_witness:
  "1 \<in> UID ` set [mail1, mail2]
   \<and> emails (fst (Update plain_widget (emailDeletedMsg 1 True ''Email moved to Trash'')
         ((NewApp pl0)\<lparr>emails := [mail1, mail2], totalMessages := 2\<rparr>))) = [mail2]
   \<and> totalMessages (fst (Update plain_widget (emailDeletedMsg 1 True ''Email moved to Trash'')
         ((NewApp pl0)\<lparr>emails := [mail1, mail2], totalMessages := 2\<rparr>))) = 1"
proof -
  have h: "1 \<in> UID ` set [mail1, mail2]"
    by (simp add: mail1_def)
  have e: "emails (fst (Update plain_widget (emailDeletedMsg 1 True ''Email moved to Trash'')
         ((NewApp pl0)\<lparr>emails := [mail1, mail2], totalMessages := 2\<rparr>))) = [mail2]"
    by (simp add: Update_deleted_success updateEmailList_def mail1_def)
  show ?thesis
    using h e
      delete_completion [of 1 "(NewApp pl0)\<lparr>emails := [mail1, mail2], totalMessages := 2\<rparr>"
        plain_widget "''Email moved to Trash''"]
    by simp
qed

section \<open>Completion of a body fetch\<close>

lemma length_set_body: "length (set_body uid b es) = length es"
  by (induction es) simp_all

lemma set_body_frame:
  "i < length es \<Longrightarrow>
     UID (set_body uid b es ! i) = UID (es ! i) \<and> Subject (set_body uid b es ! i) = Subject (es ! i)
     \<and> From (set_body uid b es ! i) = From (es ! i) \<and> To (set_body uid b es ! i) = To (es ! i)
     \<and> Date (set_body uid b es ! i) = Date (es ! i) \<and> Seen (set_body uid b es ! i) = Seen (es ! i)"
proof (induction es arbitrary: i)
  case Nil
  then show ?case by simp
next
  case (Cons e es)
  show ?case
  proof (cases i)
    case 0
    then show ?thesis by simp
  next
    case (Suc k)
    with Cons.prems have "k < length es" by simp
    from Cons.IH [OF this] show ?thesis using Suc by simp
  qed
qed

lemma set_body_changes_first_only:
  "i < length es \<Longrightarrow> set_body uid b es ! i \<noteq> es ! i \<Longrightarrow>
     UID (es ! i) = uid \<and> (\<forall>j<i. UID (es ! j) \<noteq> uid)"
proof (induction es arbitrary: i)
  case Nil
  then show ?case by simp
next
  case (Cons e es)
  show ?case
  proof (cases "UID e = uid")
    case True
    with Cons.prems show ?thesis by (cases i) simp_all
  next
    case False
    show ?thesis
    proof (cases i)
      case 0
      with Cons.prems False show ?thesis by simp
    next
      case (Suc k)
      with Cons.prems False have "k < length es" "set_body uid b es ! k \<noteq> es ! k"
        by simp_all
      from Cons.IH [OF this] have h: "UID (es ! k) = uid" "\<forall>j<k. UID (es ! j) \<noteq> uid"
        by simp_all
      have "\<forall>j<Suc k. UID ((e # es) ! j) \<noteq> uid"
      proof (intro allI impI)
        fix j assume "j < Suc k"
        then show "UID ((e # es) ! j) \<noteq> uid"
          using False h(2) by (cases j) simp_all
      qed
      with h(1) Suc show ?thesis by simp
    qed
  qed
qed

lemma set_body_sets_first:
  "i < length es \<Longrightarrow> UID (es ! i) = uid \<Longrightarrow> \<forall>j<i. UID (es ! j) \<noteq> uid \<Longrightarrow>
     set_body uid b es ! i =
       (es ! i)\<lparr>Body := Body b, HTMLBody := HTMLBody b, TextBody := TextBody b,
         ContentType := ContentType b\<rparr>"
proof (induction es arbitrary: i)
  case Nil
  then show ?case by simp
next
  case (Cons e es)
  show ?case
  proof (cases i)
    case 0
    with Cons.prems show ?thesis by simp
  next
    case (Suc k)
    from Cons.prems(3) Suc have ne: "UID e \<noteq> uid" by auto
    have "k < length es" "UID (es ! k) = uid"
      using Cons.prems Suc by simp_all
    moreover have "\<forall>j<k. UID (es ! j) \<noteq> uid"
    proof (intro allI impI)
      fix j assume "j < k"
      then have "Suc j < i" using Suc by simp
      with Cons.prems(3) show "UID (es ! j) \<noteq> uid" by fastforce
    qed
    ultimately have "set_body uid b es ! k =
       (es ! k)\<lparr>Body := Body b, HTMLBody := HTMLBody b, TextBody := TextBody b,
         ContentType := ContentType b\<rparr>"
      by (rule Cons.IH)
    with ne Suc show ?thesis by simp
  qed
qed

lemma Update_bodyLoaded_fields:
  "emails (fst (Update W (emailBodyLoadedMsg uid body) a)) = set_body uid body (emails a)
   \<and> totalMessages (fst (Update W (emailBodyLoadedMsg uid body) a)) = totalMessages a
   \<and> hasMore (fst (Update W (emailBodyLoadedMsg uid body) a)) = hasMore a"
  by (simp add: Update_def handle_def on_emailBodyLoaded_def Let_def forward_def
      split: prod.splits)

text \<open>
  C8. A body-loaded event for a uid leaves the number of messages and, in every message,
  the uid, subject, sender, recipient, date and seen flag as they were; the only message that
  can change is the first one with that uid, which gets the four body fields of the loaded
  body; the total and the "more" flag are unchanged.
\<close>

theorem body_loaded_frame:
  fixes W :: "'l widget_ops" and a :: "'l App" and uid :: u32 and body :: Email
  defines "es \<equiv> emails a"
      and "es' \<equiv> emails (fst (Update W (emailBodyLoadedMsg uid body) a))"
  shows "length es' = length es
     \<and> (\<forall>i<length es. UID (es' ! i) = UID (es ! i) \<and> Subject (es' ! i) = Subject (es ! i)
            \<and> From (es' ! i) = From (es ! i) \<and> To (es' ! i) = To (es ! i)
            \<and> Date (es' ! i) = Date (es ! i) \<and> Seen (es' ! i) = Seen (es ! i))
     \<and> (\<forall>i<length es. es' ! i \<noteq> es ! i \<longrightarrow>
            UID (es ! i) = uid \<and> (\<forall>j<i. UID (es ! j) \<noteq> uid))
     \<and> (\<forall>i<length es. UID (es ! i) = uid \<and> (\<forall>j<i. UID (es ! j) \<noteq> uid) \<longrightarrow>
            es' ! i = (es ! i)\<lparr>Body := Body body, HTMLBody := HTMLBody body,
                         TextBody := TextBody body, ContentType := ContentType body\<rparr>)
     \<and> totalMessages (fst (Update W (emailBodyLoadedMsg uid body) a)) = totalMessages a
     \<and> hasMore (fst (Update W (emailBodyLoadedMsg uid body) a)) = hasMore a"
proof -
  have eq: "es' = set_body uid body es"
    by (simp add: es'_def es_def Update_bodyLoaded_fields)
  have c1: "length es' = length es"
    by (simp add: eq length_set_body)
  have c2: "\<forall>i<length es. UID (es' ! i) = UID (es ! i) \<and> Subject (es' ! i) = Subject (es ! i)
            \<and> From (es' ! i) = From (es ! i) \<and> To (es' ! i) = To (es ! i)
            \<and> Date (es' ! i) = Date (es ! i) \<and> Seen (es' ! i) = Seen (es ! i)"
    unfolding eq by (intro allI impI) (rule set_body_frame)
  have c3: "\<forall>i<length es. es' ! i \<noteq> es ! i \<longrightarrow>
            UID (es ! i) = uid \<and> (\<forall>j<i. UID (es ! j) \<noteq> uid)"
    unfolding eq by (intro allI impI) (rule set_body_changes_first_only)
  have c4: "\<forall>i<length es. UID (es ! i) = uid \<and> (\<forall>j<i. UID (es ! j) \<noteq> uid) \<longrightarrow>
            es' ! i = (es ! i)\<lparr>Body := Body body, HTMLBody := HTMLBody body,
                         TextBody := TextBody body, ContentType := ContentType body\<rparr>"
    unfolding eq
  proof (intro allI impI)
    fix i
    assume "i < length es" and "UID (es ! i) = uid \<and> (\<forall>j<i. UID (es ! j) \<noteq> uid)"
    then show "set_body uid body es ! i =
        (es ! i)\<lparr>Body := Body body, HTMLBody := HTMLBody body,
                  TextBody := TextBody body, ContentType := ContentType body\<rparr>"
      by (intro set_body_sets_first) simp_all
  qed
  have f1: "totalMessages (fst (Update W (emailBodyLoadedMsg uid body) a)) = totalMessages a"
    by (simp add: Update_bodyLoaded_fields)
  have f2: "hasMore (fst (Update W (emailBodyLoadedMsg uid body) a)) = hasMore a"
    by (simp add: Update_bodyLoaded_fields)
  show ?thesis
    by (intro conjI c1 c2 c3 c4 f1 f2)
qed

theorem body_loaded_frame_witness:
  "(1::nat) < length [mail2, mail1] \<and> UID ([mail2, mail1] ! 1) = 1
   \<and> emails (fst (Update plain_widget (emailBodyLoadedMsg 1 mail2)
       ((NewApp pl0)\<lparr>emails := [mail2, mail1]\<rparr>))) ! 1
     = mail1\<lparr>Body := Body mail2, HTMLBody := HTMLBody mail2, TextBody := TextBody mail2,
         ContentType := ContentType mail2\<rparr>"
proof -
  have h1: "(1::nat) < length [mail2, mail1]"
    by simp
  have h2: "UID ([mail2, mail1] ! 1) = 1 \<and> (\<forall>j<1. UID ([mail2, mail1] ! j) \<noteq> 1)"
    by (simp add: mail1_def mail2_def zero_Email_def)
  have e: "emails ((NewApp pl0)\<lparr>emails := [mail2, mail1]\<rparr>) = [mail2, mail1]"
    by simp
  note T = body_loaded_frame [of plain_widget 1 mail2 "(NewApp pl0)\<lparr>emails := [mail2, mail1]\<rparr>",
      unfolded e]
  from T have "\<forall>i<length [mail2, mail1].
      UID ([mail2, mail1] ! i) = 1 \<and> (\<forall>j<i. UID ([mail2, mail1] ! j) \<noteq> 1) \<longrightarrow>
      emails (fst (Update plain_widget (emailBodyLoadedMsg 1 mail2)
         ((NewApp pl0)\<lparr>emails := [mail2, mail1]\<rparr>))) ! i
       = ([mail2, mail1] ! i)\<lparr>Body := Body mail2, HTMLBody := HTMLBody mail2,
            TextBody := TextBody mail2, ContentType := ContentType mail2\<rparr>"
    by (elim conjE)
  from this [rule_format, OF h1 h2] h1 h2 show ?thesis
    by simp
qed

section \<open>The view state machine\<close>

lemmas app_defs = Update_def handle_def on_WindowSize_def on_emailsLoaded_def
  on_emailBodyLoaded_def on_emailDeleted_def on_error_def on_key_confirm_def on_key_enter_def
  on_key_d_def on_key_def forward_def updateEmailList_def Let_def

lemma forward_keeps: "state (fst (forward W m a)) = state a
    \<and> emailToDelete (fst (forward W m a)) = emailToDelete a"
  by (simp add: forward_def split: prod.splits)

lemma on_key_confirm_inv: "confirm_inv a \<Longrightarrow> confirm_inv (fst (on_key_confirm k a))"
  by (auto simp: confirm_inv_def on_key_confirm_def split: option.splits)

lemma on_key_enter_inv:
  "state a \<noteq> deleteConfirmView \<Longrightarrow> confirm_inv (fst (on_key_enter W a))"
  by (simp add: confirm_inv_def on_key_enter_def Let_def)

lemma on_key_d_inv: "state a \<noteq> deleteConfirmView \<Longrightarrow> confirm_inv (on_key_d W a)"
  by (simp add: confirm_inv_def on_key_d_def Let_def split: option.splits item.splits)

lemma on_key_inv:
  assumes "confirm_inv a"
  shows "confirm_inv (fst (on_key W k a))"
proof (cases "state a = deleteConfirmView")
  case True
  then show ?thesis
    using on_key_confirm_inv [OF assms, of k] by (simp add: on_key_def case_prod_beta)
next
  case False
  then show ?thesis
    using on_key_enter_inv [of a W] on_key_d_inv [of a W]
    by (simp add: on_key_def) (simp add: confirm_inv_def)
qed

lemma handle_inv: "confirm_inv a \<Longrightarrow> confirm_inv (fst (handle W m a))"
proof (cases m)
  case (KeyMsg k)
  then show "confirm_inv a \<Longrightarrow> ?thesis"
    using on_key_inv [of a W k] by (simp add: handle_def)
next
  case (emailDeletedMsg uid success message)
  then show ?thesis
    by (simp add: handle_def confirm_inv_def on_emailDeleted_def Let_def updateEmailList_def)
qed (simp_all add: handle_def confirm_inv_def on_WindowSize_def on_emailsLoaded_def
      on_emailBodyLoaded_def on_error_def Let_def updateEmailList_def)

lemma Update_inv: "confirm_inv a \<Longrightarrow> confirm_inv (fst (Update W m a))"
proof -
  assume i: "confirm_inv a"
  obtain a' c where h: "handle W m a = (a', c)" by (cases "handle W m a")
  from handle_inv [OF i, of W m] h have i': "confirm_inv a'" by simp
  show ?thesis
  proof (cases c)
    case None
    with h i' forward_keeps [of W m a'] show ?thesis
      by (simp add: Update_def confirm_inv_def)
  next
    case (Some x)
    with h i' show ?thesis by (simp add: Update_def)
  qed
qed

lemma reachable_inv: "reachable W l a \<Longrightarrow> confirm_inv a"
proof (induction rule: reachable.induct)
  case reach_init
  show ?case by (simp add: confirm_inv_def NewApp_def)
next
  case (reach_update a m)
  then show ?case by (simp add: Update_inv)
next
  case (reach_task a)
  then show ?case by (simp add: confirm_inv_def)
qed

lemma key_d_no_target:
  "emails a = [] \<or> Index W (list_model a) = length (emails a) \<Longrightarrow>
     state (fst (Update W (KeyMsg ''d'') a)) = state a
     \<and> emailToDelete (fst (Update W (KeyMsg ''d'') a)) = emailToDelete a
     \<and> showDeleteConfirm (fst (Update W (KeyMsg ''d'') a)) = showDeleteConfirm a"
proof -
  assume h: "emails a = [] \<or> Index W (list_model a) = length (emails a)"
  show ?thesis
  proof (cases "state a = deleteConfirmView")
    case True
    then show ?thesis
      by (simp add: Update_def handle_def on_key_def on_key_confirm_def)
  next
    case False
    from h have d: "on_key_d W a = a"
      by (auto simp: on_key_d_def)
    from False d show ?thesis
      using forward_keeps [of W "KeyMsg ''d''" a]
      by (simp add: Update_def handle_def on_key_def forward_def split: prod.splits)
  qed
qed

lemma reachable_run: "reachable W l a \<Longrightarrow> reachable W l (fst (run W ms a))"
proof (induction ms arbitrary: a)
  case Nil
  then show ?case by simp
next
  case (Cons m ms)
  from Cons.prems have "reachable W l (fst (Update W m a))" by (rule reach_update)
  from Cons.IH [OF this] show ?case by (simp add: case_prod_beta)
qed

text \<open>
  C10. In every state the program can reach, the confirmation view has its target
  (\<open>emailToDelete\<close> is not \<open>nil\<close>); and the delete key, pressed while no message is
  loaded or while the cursor is on the item after the last message (the "load more" item),
  leaves the view and the target as they were.
\<close>

theorem confirm_delete_has_target:
  assumes "reachable W l a"
  shows "(state a = deleteConfirmView \<longrightarrow> emailToDelete a \<noteq> None)
     \<and> (emails a = [] \<or> Index W (list_model a) = length (emails a) \<longrightarrow>
          state (fst (Update W (KeyMsg ''d'') a)) = state a
          \<and> emailToDelete (fst (Update W (KeyMsg ''d'') a)) = emailToDelete a)"
  using reachable_inv [OF assms] key_d_no_target [of a W] by (simp add: confirm_inv_def)

lemma plain_sel [simp]:
  "Index plain_widget = pl_cursor" "Items plain_widget = pl_items"
  "SelectedItem plain_widget l =
     (if pl_cursor l < length (pl_items l) then Some (pl_items l ! pl_cursor l) else None)"
  "SetItems plain_widget its l = l\<lparr>pl_items := its\<rparr>"
  "SetSize plain_widget w h l = l"
  "viewportUpdate plain_widget m = False"
  "listUpdate plain_widget m l =
       (if m = KeyMsg ''down'' \<and> Suc (pl_cursor l) < length (pl_items l)
        then l\<lparr>pl_cursor := Suc (pl_cursor l)\<rparr>
        else if m = KeyMsg ''up'' then l\<lparr>pl_cursor := pl_cursor l - 1\<rparr>
        else l, False)"
  by (simp_all add: plain_widget_def)

lemma refresh_run_state:
  "state (fst (run plain_widget refresh_run (NewApp pl0))) = deleteConfirmView
   \<and> emails (fst (run plain_widget refresh_run (NewApp pl0))) = []
   \<and> emailToDelete (fst (run plain_widget refresh_run (NewApp pl0))) = Some mail1"
  by (simp add: refresh_run_def app_defs NewApp_def pl0_def)

theorem confirm_delete_has_target_witness:
  "reachable plain_widget pl0 (fst (run plain_widget refresh_run (NewApp pl0)))
   \<and> state (fst (run plain_widget refresh_run (NewApp pl0))) = deleteConfirmView
   \<and> emails (fst (run plain_widget refresh_run (NewApp pl0))) = []
   \<and> emailToDelete (fst (run plain_widget refresh_run (NewApp pl0))) \<noteq> None
   \<and> state (fst (Update plain_widget (KeyMsg ''d'')
         (fst (run plain_widget refresh_run (NewApp pl0))))) = deleteConfirmView"
proof -
  have r: "reachable plain_widget pl0 (fst (run plain_widget refresh_run (NewApp pl0)))"
    by (rule reachable_run) (rule reach_init)
  from confirm_delete_has_target [OF r] refresh_run_state r show ?thesis
    by simp
qed

lemma double_enter_cmds:
  "snd (run plain_widget double_enter_run (NewApp pl0)) =
     [None, None, None, Some (deleteEmail 1), Some (deleteEmail 1)]"
  by (simp add: double_enter_run_def app_defs NewApp_def pl0_def mail1_def zero_Email_def)

section \<open>The confirmation view\<close>

lemma confirm_enter_no:
  "state a = deleteConfirmView \<Longrightarrow> deleteConfirmIndex a \<noteq> 1 \<Longrightarrow>
     Update W (KeyMsg ''enter'') a =
       (a\<lparr>showDeleteConfirm := False, state := listView, emailToDelete := None\<rparr>, None)"
  by (simp add: Update_def handle_def on_key_def on_key_confirm_def split: option.splits)

lemma confirm_enter_yes:
  "state a = deleteConfirmView \<Longrightarrow> deleteConfirmIndex a = 1 \<Longrightarrow> emailToDelete a = Some target \<Longrightarrow>
     Update W (KeyMsg ''enter'') a = (a\<lparr>deletingEmail := True\<rparr>, Some (deleteEmail (UID target)))"
  by (simp add: Update_def handle_def on_key_def on_key_confirm_def)

lemma key_keeps_deletingEmail:
  "deletingEmail a \<Longrightarrow> deletingEmail (fst (Update W (KeyMsg k) a))"
  by (simp add: app_defs case_prod_beta split: option.splits item.splits)

lemma confirm_yes_state:
  "state (fst (run plain_widget confirm_yes_run (NewApp pl0))) = deleteConfirmView
   \<and> deletingEmail (fst (run plain_widget confirm_yes_run (NewApp pl0)))
   \<and> deleteConfirmIndex (fst (run plain_widget confirm_yes_run (NewApp pl0))) = 1
   \<and> emailToDelete (fst (run plain_widget confirm_yes_run (NewApp pl0))) = Some mail1
   \<and> snd (run plain_widget confirm_yes_run (NewApp pl0)) =
        [None, None, None, Some (deleteEmail 1)]"
  by (simp add: confirm_yes_run_def app_defs NewApp_def pl0_def mail1_def zero_Email_def)

text \<open>
  C9. The claim: after the confirm key with the choice yes the program is in a
  non-interactive deleting sub-state until the completion arrives, with exactly one delete
  task issued. The code sets the flag and issues the task, but \<open>Update\<close> never reads
  \<open>deletingEmail\<close>: in that sub-state the confirm key issues a second delete task for the
  same uid, and the escape key goes back to the list.
\<close>

theorem deleting_state_takes_keys:
  "state (fst (run plain_widget confirm_yes_run (NewApp pl0))) = deleteConfirmView
   \<and> deletingEmail (fst (run plain_widget confirm_yes_run (NewApp pl0)))
   \<and> snd (run plain_widget confirm_yes_run (NewApp pl0)) =
        [None, None, None, Some (deleteEmail 1)]
   \<and> snd (Update plain_widget (KeyMsg ''enter'')
        (fst (run plain_widget confirm_yes_run (NewApp pl0)))) = Some (deleteEmail 1)
   \<and> state (fst (Update plain_widget (KeyMsg ''esc'')
        (fst (run plain_widget confirm_yes_run (NewApp pl0))))) = listView"
proof -
  have e: "snd (Update plain_widget (KeyMsg ''enter'')
        (fst (run plain_widget confirm_yes_run (NewApp pl0)))) = Some (deleteEmail 1)"
    using confirm_yes_state
    by (simp add: confirm_enter_yes [where target = mail1] mail1_def zero_Email_def)
  have c: "state (fst (Update plain_widget (KeyMsg ''esc'')
        (fst (run plain_widget confirm_yes_run (NewApp pl0))))) = listView"
    using confirm_yes_state
    by (simp add: Update_def handle_def on_key_def on_key_confirm_def)
  from confirm_yes_state e c show ?thesis by simp
qed

lemma emailsLoaded_hasMore:
  "hasMore (fst (Update W (emailsLoadedMsg es t lm) a)) =
     ((of_nat (length (emails (fst (Update W (emailsLoadedMsg es t lm) a)))) :: u32)
        < totalMessages (fst (Update W (emailsLoadedMsg es t lm) a)))"
  by (simp add: app_defs case_prod_beta)

text \<open>
  C3. The claim: the "more" flag equals (loaded messages < total) after every page load and
  after every delete completion. The page load computes it (\<open>emailsLoaded_hasMore\<close>); the
  delete completion decrements the total, whether or not a message was removed, and leaves
  the flag as it was. After the two completions of \<open>double_enter_run\<close> no message is
  loaded, the total has wrapped to 4294967295, and the flag is false.
\<close>

theorem hasMore_stale_after_delete:
  "emails (fst (run plain_widget (double_enter_run @ [delete_done, delete_done]) (NewApp pl0))) = []
   \<and> totalMessages (fst (run plain_widget (double_enter_run @ [delete_done, delete_done])
        (NewApp pl0))) = 4294967295
   \<and> hasMore (fst (run plain_widget (double_enter_run @ [delete_done, delete_done])
        (NewApp pl0))) = False
   \<and> ((of_nat (length (emails (fst (run plain_widget
          (double_enter_run @ [delete_done, delete_done]) (NewApp pl0))))) :: u32)
        < totalMessages (fst (run plain_widget (double_enter_run @ [delete_done, delete_done])
            (NewApp pl0)))) = True
   \<and> snd (run plain_widget (double_enter_run @ [delete_done, delete_done]) (NewApp pl0)) =
        [None, None, None, Some (deleteEmail 1), Some (deleteEmail 1), Some Tick, Some Tick]"
  by (simp add: double_enter_run_def delete_done_def app_defs NewApp_def pl0_def mail1_def
      zero_Email_def word_gt_0)

text \<open>
  C2. The claim: a successful delete removes the message with the uid and the total
  decreases by exactly 1. After \<open>emptied_run\<close> one message is loaded and the total is 0;
  the completion of its delete removes the message, and the total, decremented in
  \<open>uint32\<close> without a test, is 4294967295.
\<close>

theorem delete_at_total_zero_wraps:
  "emails (fst (run plain_widget emptied_run (NewApp pl0))) = [mail2]
   \<and> totalMessages (fst (run plain_widget emptied_run (NewApp pl0))) = 0
   \<and> snd (run plain_widget emptied_run (NewApp pl0)) =
        [None, None, Some (loadEmails 2 True), None, None, None, None, Some (deleteEmail 2)]
   \<and> emails (fst (Update plain_widget (emailDeletedMsg 2 True ''Email moved to Trash'')
        (fst (run plain_widget emptied_run (NewApp pl0))))) = []
   \<and> totalMessages (fst (Update plain_widget (emailDeletedMsg 2 True ''Email moved to Trash'')
        (fst (run plain_widget emptied_run (NewApp pl0))))) = 4294967295"
proof -
  have s: "emails (fst (run plain_widget emptied_run (NewApp pl0))) = [mail2]
      \<and> totalMessages (fst (run plain_widget emptied_run (NewApp pl0))) = 0
      \<and> snd (run plain_widget emptied_run (NewApp pl0)) =
        [None, None, Some (loadEmails 2 True), None, None, None, None, Some (deleteEmail 2)]"
    by (simp add: emptied_run_def app_defs NewApp_def pl0_def mail2_def zero_Email_def)
  from s show ?thesis
    by (simp add: Update_deleted_success updateEmailList_def mail2_def zero_Email_def)
qed

section \<open>Selecting a message\<close>






lemma delete_keeps_hasMore_when_present:
  assumes inv: "hasMore a = ((of_nat (length (emails a)) :: u32) < totalMessages a)"
      and mem: "uid \<in> UID ` set (emails a)"
      and nz: "totalMessages a \<noteq> 0"
      and small: "length (emails a) < 2 ^ 32"
  shows "hasMore (fst (Update W (emailDeletedMsg uid True message) a)) =
     ((of_nat (length (emails (fst (Update W (emailDeletedMsg uid True message) a)))) :: u32)
        < totalMessages (fst (Update W (emailDeletedMsg uid True message) a)))"
proof -
  let ?a' = "fst (Update W (emailDeletedMsg uid True message) a)"
  have h: "hasMore ?a' = hasMore a"
    by (simp add: Update_deleted_success updateEmailList_def)
  have t: "totalMessages ?a' = totalMessages a - 1"
    by (simp add: Update_deleted_success updateEmailList_def)
  have e: "emails ?a' = remove_uid uid (emails a)"
    by (simp add: Update_deleted_success updateEmailList_def)
  from remove_uid_split [OF mem] obtain pre x post where
    s: "emails a = pre @ x # post" "remove_uid uid (emails a) = pre @ post"
    by blast
  then have l: "length (emails a) = Suc (length (emails ?a'))"
    by (simp add: e)
  define n where "n = length (emails ?a')"
  have n1: "Suc n < 2 ^ 32" using small l by (simp add: n_def)
  have un: "unat (of_nat n :: u32) = n"
    using n1 by (simp add: unat_of_nat take_bit_nat_eq_self)
  have usn: "unat (of_nat (Suc n) :: u32) = Suc n"
    using n1 by (simp only: unat_of_nat) (simp add: take_bit_nat_eq_self)
  have ut: "unat (totalMessages a - 1) = unat (totalMessages a) - 1"
    using nz by (simp add: unat_minus_one)
  have tpos: "0 < unat (totalMessages a)"
    using nz by (simp add: unat_gt_0)
  have "((of_nat (Suc n) :: u32) < totalMessages a) = ((of_nat n :: u32) < totalMessages a - 1)"
    unfolding word_less_nat_alt usn un ut using tpos by auto
  then show ?thesis
    using inv h t l by (simp add: n_def)
qed


section \<open>The MIME decoder\<close>

lemma read_parts_step:
  "reader i \<noteq> EOF \<Longrightarrow>
     read_parts lib reader i email = read_parts lib reader (Suc i) (part_step lib email (reader i))"
  by (subst read_parts.simps) (simp add: part_step_def split: part_event.splits option.splits)

lemma read_parts_EOF: "reader i = EOF \<Longrightarrow> read_parts lib reader i email = Some email"
  by (subst read_parts.simps) simp

lemma read_parts_fold:
  "reader (i + n) = EOF \<Longrightarrow> (\<forall>k<n. reader (i + k) \<noteq> EOF) \<Longrightarrow>
     read_parts lib reader i email = Some (foldl (part_step lib) email (map reader [i..<i + n]))"
proof (induction n arbitrary: i email)
  case 0
  then show ?case by (simp add: read_parts_EOF)
next
  case (Suc n)
  from Suc.prems(2) have ne: "reader i \<noteq> EOF" by (metis add.right_neutral zero_less_Suc)
  have e: "reader (Suc i + n) = EOF" using Suc.prems(1) by simp
  have a: "\<forall>k<n. reader (Suc i + k) \<noteq> EOF"
  proof (intro allI impI)
    fix k assume "k < n"
    then have "Suc k < Suc n" by simp
    with Suc.prems(2) have "reader (i + Suc k) \<noteq> EOF" by blast
    then show "reader (Suc i + k) \<noteq> EOF" by simp
  qed
  have "read_parts lib reader i email =
      read_parts lib reader (Suc i) (part_step lib email (reader i))"
    using ne by (rule read_parts_step)
  also have "\<dots> = Some (foldl (part_step lib) (part_step lib email (reader i))
      (map reader [Suc i..<Suc i + n]))"
    using e a by (rule Suc.IH)
  also have "\<dots> = Some (foldl (part_step lib) email (map reader (i # [Suc i..<Suc i + n])))"
    by simp
  also have "i # [Suc i..<Suc i + n] = [i..<i + Suc n]"
    using upt_conv_Cons [of i "i + Suc n"] by simp
  finally show ?case .
qed

lemma part_step_cases:
  "part_step lib email ev = email
   \<or> (\<exists>ct b. ev = Part ct (Some b) \<and> part_step lib email ev = classify_part lib ct b email)"
  by (simp add: part_step_def split: part_event.splits option.splits)

lemma read_ok_parts_append:
  "read_ok_parts lib (evs @ evs') = read_ok_parts lib evs @ read_ok_parts lib evs'"
  by (induction lib evs rule: read_ok_parts.induct) simp_all

lemma last_of_kind_snoc:
  "last_of_kind kind (ps @ [p]) = (if kind (fst p) then snd p else last_of_kind kind ps)"
  by (simp add: last_of_kind_def Let_def)

lemma not_both: "prefix ''text/html'' s \<Longrightarrow> \<not> prefix ''text/plain'' s"
  by (auto simp: prefix_def)

lemma foldl_parts:
  "HTMLBody email = [] \<Longrightarrow> TextBody email = [] \<Longrightarrow>
   HTMLBody (foldl (part_step lib) email evs) = last_of_kind is_html (read_ok_parts lib evs)
   \<and> TextBody (foldl (part_step lib) email evs) = last_of_kind is_plain (read_ok_parts lib evs)
   \<and> ContentType (foldl (part_step lib) email evs) = ContentType email
   \<and> Body (foldl (part_step lib) email evs) = Body email"
proof (induction evs rule: rev_induct)
  case Nil
  then show ?case by (simp add: last_of_kind_def)
next
  case (snoc ev evs)
  note IH = snoc.IH [OF snoc.prems]
  show ?case
  proof (cases ev)
    case EOF
    with IH show ?thesis by (simp add: part_step_def read_ok_parts_append)
  next
    case NextPartError
    with IH show ?thesis by (simp add: part_step_def read_ok_parts_append)
  next
    case (Part ct r)
    show ?thesis
    proof (cases r)
      case None
      with Part IH show ?thesis by (simp add: part_step_def read_ok_parts_append)
    next
      case (Some b)
      with Part IH show ?thesis
        using not_both [of "fst (ParseMediaType lib ct)"]
        by (auto simp: part_step_def read_ok_parts_append last_of_kind_snoc classify_part_def
            is_html_def is_plain_def Let_def)
    qed
  qed
qed

lemma read_parts_Body:
  assumes "read_parts lib reader i email = Some email'"
  shows "Body email' = Body email"
proof (rule read_parts.raw_induct [where P = "\<lambda>l r i e y. Body y = Body e", OF _ assms], goal_cases)
  case (1 rp lib reader i email y)
  show ?case
  proof (cases "reader i")
    case EOF
    with 1(2) show ?thesis by simp
  next
    case NextPartError
    with 1(2) have "rp lib reader (Suc i) email = Some y" by simp
    then show ?thesis by (rule 1(1))
  next
    case (Part ct r)
    show ?thesis
    proof (cases r)
      case None
      with Part 1(2) have "rp lib reader (Suc i) email = Some y" by simp
      then show ?thesis by (rule 1(1))
    next
      case (Some b)
      with Part 1(2) have "rp lib reader (Suc i) (classify_part lib ct b email) = Some y"
        by simp
      from 1(1) [OF this] show ?thesis
        by (simp add: classify_part_def Let_def split: if_splits)
    qed
  qed
qed

lemma choose_body_Body:
  "Body email = [] \<Longrightarrow>
     Body (choose_body email) =
       (if TextBody email \<noteq> [] then TextBody email
        else if HTMLBody email \<noteq> [] then HTMLBody email else [])
     \<and> TextBody (choose_body email) = TextBody email
     \<and> HTMLBody (choose_body email) = HTMLBody email
     \<and> ContentType (choose_body email) = ContentType email"
  by (simp add: choose_body_def)

lemma parseEmailBody_merge:
  "parseEmailBody lib raw = Some (Inr e) \<Longrightarrow>
     Body e = (if TextBody e \<noteq> [] then TextBody e else if HTMLBody e \<noteq> [] then HTMLBody e else [])"
proof -
  assume p: "parseEmailBody lib raw = Some (Inr e)"
  then obtain email where e: "e = choose_body email" and b: "Body email = []"
    by (auto simp: parseEmailBody_def Let_def zero_Email_def
        split: sum.splits prod.splits if_splits option.splits dest!: read_parts_Body)
  from choose_body_Body [OF b] show ?thesis
    by (simp add: e)
qed

lemma read_parts_never_EOF:
  "read_parts lib (\<lambda>n. NextPartError) i email = None"
proof (cases "read_parts lib (\<lambda>n. NextPartError) i email")
  case None
  then show ?thesis .
next
  case (Some y)
  have False
  proof (rule read_parts.raw_induct
      [where P = "\<lambda>l r i e y. r \<noteq> (\<lambda>n. NextPartError)", OF _ Some, THEN notE], goal_cases)
    case (1 rp lib reader i email y)
    show ?case
    proof
      assume r: "reader = (\<lambda>n. NextPartError)"
      with 1(2) have "rp lib reader (Suc i) email = Some y" by simp
      from 1(1) [OF this] r show False by simp
    qed
  next
    case 2
    show ?case by simp
  qed
  then show ?thesis ..
qed

text \<open>
  What the decoder returns when it returns. For a message that \<open>mail.ReadMessage\<close>
  accepts: when the declared type is a
  multipart container and the part reader reaches the end after \<open>n\<close> calls, the decoder
  returns, its HTML part is the body of the last part read whose own type is HTML, its
  plain part the body of the last part read whose own type is plain text (empty when there
  is none; nothing is concatenated); when the type is not multipart, the whole body is the
  HTML part if the declared type is HTML and the plain part otherwise, the other part
  empty; and whenever the decoder returns a message, its display body is the plain part if
  that is not empty, else the HTML part if that is not empty, else empty.
\<close>

theorem parseEmailBody_parts:
  fixes lib :: "'b mime_lib"
  assumes rm: "ReadMessage lib raw = Inr (contentType, body)"
  defines "mediaType \<equiv> (if snd (snd (ParseMediaType lib contentType)) then ''text/plain''
                          else fst (ParseMediaType lib contentType))"
      and "reader \<equiv> NewReader lib body (boundary_param (fst (snd (ParseMediaType lib contentType))))"
  shows "(prefix ''multipart/'' mediaType \<longrightarrow>
            (\<forall>n. reader n = EOF \<and> (\<forall>k<n. reader k \<noteq> EOF) \<longrightarrow>
               (\<exists>e. parseEmailBody lib raw = Some (Inr e) \<and> ContentType e = mediaType
                  \<and> HTMLBody e = last_of_kind is_html (read_ok_parts lib (map reader [0..<n]))
                  \<and> TextBody e = last_of_kind is_plain (read_ok_parts lib (map reader [0..<n])))))
       \<and> (\<not> prefix ''multipart/'' mediaType \<longrightarrow>
            (\<forall>b. ReadAll lib body = Inr b \<longrightarrow>
               (\<exists>e. parseEmailBody lib raw = Some (Inr e) \<and> ContentType e = mediaType
                  \<and> HTMLBody e = (if prefix ''text/html'' mediaType then b else [])
                  \<and> TextBody e = (if prefix ''text/html'' mediaType then [] else b))))
       \<and> (\<forall>e. parseEmailBody lib raw = Some (Inr e) \<longrightarrow>
            Body e = (if TextBody e \<noteq> [] then TextBody e
                      else if HTMLBody e \<noteq> [] then HTMLBody e else []))"
proof (intro conjI impI allI)
  fix n
  assume mp: "prefix ''multipart/'' mediaType"
     and eof: "reader n = EOF \<and> (\<forall>k<n. reader k \<noteq> EOF)"
  let ?email = "zero_Email\<lparr>ContentType := mediaType\<rparr>"
  have "read_parts lib reader 0 ?email =
      Some (foldl (part_step lib) ?email (map reader [0..<0 + n]))"
    using eof by (intro read_parts_fold) simp_all
  then have rp: "read_parts lib reader 0 ?email =
      Some (foldl (part_step lib) ?email (map reader [0..<n]))"
    by simp
  have z: "HTMLBody ?email = []" "TextBody ?email = []" "Body ?email = []"
    by (simp_all add: zero_Email_def)
  note f = foldl_parts [OF z(1) z(2), of lib "map reader [0..<n]"]
  let ?r = "foldl (part_step lib) ?email (map reader [0..<n])"
  have b: "Body ?r = []" using f z(3) by simp
  have p: "parseEmailBody lib raw = Some (Inr (choose_body ?r))"
    using rm mp rp unfolding mediaType_def reader_def
    by (cases "snd (snd (ParseMediaType lib contentType))")
       (simp_all add: parseEmailBody_def Let_def case_prod_beta)
  from choose_body_Body [OF b] f
  have "ContentType (choose_body ?r) = mediaType
      \<and> HTMLBody (choose_body ?r) = last_of_kind is_html (read_ok_parts lib (map reader [0..<n]))
      \<and> TextBody (choose_body ?r) = last_of_kind is_plain (read_ok_parts lib (map reader [0..<n]))"
    by simp
  with p show "\<exists>e. parseEmailBody lib raw = Some (Inr e) \<and> ContentType e = mediaType
      \<and> HTMLBody e = last_of_kind is_html (read_ok_parts lib (map reader [0..<n]))
      \<and> TextBody e = last_of_kind is_plain (read_ok_parts lib (map reader [0..<n]))"
    by blast
next
  fix b
  assume nmp: "\<not> prefix ''multipart/'' mediaType" and ra: "ReadAll lib body = Inr b"
  let ?email = "zero_Email\<lparr>ContentType := mediaType\<rparr>"
  let ?r = "if prefix ''text/html'' mediaType then ?email\<lparr>HTMLBody := b\<rparr> else ?email\<lparr>TextBody := b\<rparr>"
  have p: "parseEmailBody lib raw = Some (Inr (choose_body ?r))"
    using rm nmp ra unfolding mediaType_def
    by (cases "snd (snd (ParseMediaType lib contentType))")
       (simp_all add: parseEmailBody_def Let_def case_prod_beta)
  have "ContentType (choose_body ?r) = mediaType
      \<and> HTMLBody (choose_body ?r) = (if prefix ''text/html'' mediaType then b else [])
      \<and> TextBody (choose_body ?r) = (if prefix ''text/html'' mediaType then [] else b)"
    by (simp add: choose_body_def zero_Email_def)
  with p show "\<exists>e. parseEmailBody lib raw = Some (Inr e) \<and> ContentType e = mediaType
      \<and> HTMLBody e = (if prefix ''text/html'' mediaType then b else [])
      \<and> TextBody e = (if prefix ''text/html'' mediaType then [] else b)"
    by blast
next
  fix e
  assume "parseEmailBody lib raw = Some (Inr e)"
  then show "Body e = (if TextBody e \<noteq> [] then TextBody e
                      else if HTMLBody e \<noteq> [] then HTMLBody e else [])"
    by (rule parseEmailBody_merge)
qed

lemma sample_lib_simps [simp]:
  "ReadMessage sample_lib raw_multipart =
     Inr (''multipart/alternative; boundary=x'', multipart_body)"
  "ReadMessage sample_lib raw_html = Inr (''text/html'', ''<b>Hi</b>'')"
  "ReadMessage sample_lib raw_bad_ctype = Inr (''text/html; charset'', ''<b>Hi</b>'')"
  "ReadMessage sample_lib raw_garbage = Inl ''malformed MIME header line''"
  "ParseMediaType sample_lib ''multipart/alternative; boundary=x'' =
     (''multipart/alternative'', [''boundary'' \<mapsto> ''x''], False)"
  "ParseMediaType sample_lib ''text/html; charset'' = (''text/html'', Map.empty, True)"
  "ParseMediaType sample_lib ''text/html'' = (''text/html'', Map.empty, False)"
  "ParseMediaType sample_lib ''text/plain'' = (''text/plain'', Map.empty, False)"
  "ReadAll sample_lib b = Inr b"
  "NewReader sample_lib multipart_body ''x'' =
     (\<lambda>n. if n = 0 then Part ''text/plain'' (Some ''Hello'')
          else if n = 1 then Part ''text/html'' (Some ''<p>Hello</p>'')
          else EOF)"
  by (simp_all add: sample_lib_def raw_multipart_def raw_html_def raw_bad_ctype_def
      raw_garbage_def crlf_def multipart_body_def)

theorem parseEmailBody_parts_witness:
  "(\<exists>e. parseEmailBody sample_lib raw_multipart = Some (Inr e)
        \<and> ContentType e = ''multipart/alternative''
        \<and> TextBody e = ''Hello'' \<and> HTMLBody e = ''<p>Hello</p>'' \<and> Body e = ''Hello'')
   \<and> (\<exists>e. parseEmailBody sample_lib raw_html = Some (Inr e)
        \<and> ContentType e = ''text/html''
        \<and> TextBody e = [] \<and> HTMLBody e = ''<b>Hi</b>'' \<and> Body e = ''<b>Hi</b>'')"
proof -
  note T1 = parseEmailBody_parts [of sample_lib raw_multipart
      "''multipart/alternative; boundary=x''" multipart_body, simplified boundary_param_def, simplified]
  from T1 have m1: "\<forall>n. (if n = 0 then Part ''text/plain'' (Some ''Hello'')
          else if n = 1 then Part ''text/html'' (Some ''<p>Hello</p>'') else EOF) = EOF
        \<and> (\<forall>k<n. (if k = 0 then Part ''text/plain'' (Some ''Hello'')
          else if k = 1 then Part ''text/html'' (Some ''<p>Hello</p>'') else EOF) \<noteq> EOF) \<longrightarrow>
      (\<exists>e. parseEmailBody sample_lib raw_multipart = Some (Inr e)
         \<and> ContentType e = ''multipart/alternative''
         \<and> HTMLBody e = last_of_kind is_html (read_ok_parts sample_lib
              (map (\<lambda>n. if n = 0 then Part ''text/plain'' (Some ''Hello'')
                 else if n = 1 then Part ''text/html'' (Some ''<p>Hello</p>'') else EOF) [0..<n]))
         \<and> TextBody e = last_of_kind is_plain (read_ok_parts sample_lib
              (map (\<lambda>n. if n = 0 then Part ''text/plain'' (Some ''Hello'')
                 else if n = 1 then Part ''text/html'' (Some ''<p>Hello</p>'') else EOF) [0..<n])))"
    by blast
  have u: "[0..<2] = [0, Suc 0]"
    by (simp add: upt_rec)
  have hyp: "(if (2::nat) = 0 then Part ''text/plain'' (Some ''Hello'')
          else if (2::nat) = 1 then Part ''text/html'' (Some ''<p>Hello</p>'') else EOF) = EOF
        \<and> (\<forall>k<2::nat. (if k = 0 then Part ''text/plain'' (Some ''Hello'')
          else if k = 1 then Part ''text/html'' (Some ''<p>Hello</p>'') else EOF) \<noteq> EOF)"
    by simp
  from m1 [rule_format, OF hyp] obtain e1 where
    e1: "parseEmailBody sample_lib raw_multipart = Some (Inr e1)"
        "ContentType e1 = ''multipart/alternative''"
        "HTMLBody e1 = ''<p>Hello</p>''" "TextBody e1 = ''Hello''"
    by (auto simp: u last_of_kind_def is_html_def is_plain_def)
  from T1 e1(1) have b1: "Body e1 = (if TextBody e1 \<noteq> [] then TextBody e1
      else if HTMLBody e1 \<noteq> [] then HTMLBody e1 else [])"
    by blast
  note T2 = parseEmailBody_parts [of sample_lib raw_html "''text/html''" "''<b>Hi</b>''",
      simplified]
  from T2 obtain e2 where
    e2: "parseEmailBody sample_lib raw_html = Some (Inr e2)" "ContentType e2 = ''text/html''"
        "HTMLBody e2 = ''<b>Hi</b>''" "TextBody e2 = []"
    by blast
  from T2 e2(1) have b2: "Body e2 = (if TextBody e2 \<noteq> [] then TextBody e2
      else if HTMLBody e2 \<noteq> [] then HTMLBody e2 else [])"
    by blast
  from e1 b1 e2 b2 show ?thesis by simp
qed

lemma read_parts_reaches_EOF:
  assumes "read_parts lib reader i email = Some email'"
  shows "\<exists>n. reader n = EOF"
proof (rule read_parts.raw_induct [where P = "\<lambda>l r i e y. \<exists>n. r n = EOF", OF _ assms], goal_cases)
  case (1 rp lib reader i email y)
  show ?case
  proof (cases "reader i")
    case EOF
    then show ?thesis by blast
  next
    case NextPartError
    with 1(2) have "rp lib reader (Suc i) email = Some y" by simp
    then show ?thesis by (rule 1(1))
  next
    case (Part ct r)
    show ?thesis
    proof (cases r)
      case None
      with Part 1(2) have "rp lib reader (Suc i) email = Some y" by simp
      then show ?thesis by (rule 1(1))
    next
      case (Some b)
      with Part 1(2) have "rp lib reader (Suc i) (classify_part lib ct b email) = Some y"
        by simp
      then show ?thesis by (rule 1(1))
    qed
  qed
qed

lemma read_parts_no_EOF:
  "\<forall>n. reader n \<noteq> EOF \<Longrightarrow> read_parts lib reader i email = None"
  using read_parts_reaches_EOF [of lib reader i email] by (cases "read_parts lib reader i email") auto

lemma parseEmailBody_multipart_no_EOF:
  assumes "ReadMessage lib raw = Inr (contentType, body)"
      and "ParseMediaType lib contentType = (mt, params, False)"
      and "prefix ''multipart/'' mt"
      and "\<forall>n. NewReader lib body (boundary_param params) n \<noteq> EOF"
  shows "parseEmailBody lib raw = None"
  using assms by (simp add: parseEmailBody_def Let_def read_parts_no_EOF)

text \<open>
  C4. The claim: for every message declared multipart the decoder classifies the parts and
  chooses the display body. The loop over the parts ends at \<open>io.EOF\<close> only and takes up
  \<open>NextPart\<close> again after any other error: when the reader never reaches the end, as for
  a message without a boundary parameter, the decoder does not return, and neither do the
  body fetch and its task.
\<close>

theorem multipart_without_boundary_never_returns:
  "ReadMessage no_boundary_lib raw_no_boundary = Inr (''multipart/mixed'', ''Hello'')
   \<and> parseEmailBody no_boundary_lib raw_no_boundary = None
   \<and> fetchEmailBodyParsed no_boundary_lib no_boundary_fetch 5 = None
   \<and> run_loadEmailBody no_boundary_lib no_boundary_fetch 5 = None"
proof -
  have r: "ReadMessage no_boundary_lib raw_no_boundary = Inr (''multipart/mixed'', ''Hello'')"
    by (simp add: no_boundary_lib_def)
  have p: "parseEmailBody no_boundary_lib raw_no_boundary = None"
    by (rule parseEmailBody_multipart_no_EOF [OF r, of "''multipart/mixed''" Map.empty])
       (simp_all add: no_boundary_lib_def)
  have f: "fetchEmailBodyParsed no_boundary_lib no_boundary_fetch 5 = None"
    by (simp add: fetchEmailBodyParsed_def no_boundary_fetch_def p)
  from r p f show ?thesis
    by (simp add: run_loadEmailBody_def)
qed

section \<open>The body fetch\<close>








section \<open>The trash pipeline\<close>

lemma trash_loop_spec: "trash_loop srv uid folders sent = spec_attempts srv uid folders sent"
proof (induction folders arbitrary: sent)
  case Nil
  show ?case by simp
next
  case (Cons f fs)
  show ?case
    by (simp add: issue_def attempt_steps_def Cons.IH split: option.splits)
qed

lemma trash_loop_folder:
  "trash_loop srv uid folders sent = (Some f, sent') \<Longrightarrow> f \<in> set folders"
proof (induction folders arbitrary: sent)
  case Nil
  then show ?case by simp
next
  case (Cons g gs)
  then show ?case
    by (auto simp: issue_def split: option.splits)
qed

lemma trash_loop_last:
  "trash_loop srv uid folders sent = (Some f, sent') \<Longrightarrow> last sent' = UidMove uid f"
proof (induction folders arbitrary: sent)
  case Nil
  then show ?case by simp
next
  case (Cons g gs)
  then show ?case
    by (auto simp: issue_def split: option.splits)
qed

text \<open>
  C6. The function does what the specification's wording of the delete operation does:
  same success flag and same commands sent, in the same order, for every server. And when it
  reports success, either the message is the one of the fallback, or it names a candidate
  folder and the last command sent is the move of the uid into that folder.
\<close>

theorem moveEmailToTrash_refines_spec:
  "(fst (fst (moveEmailToTrash srv uid sent)), snd (moveEmailToTrash srv uid sent))
     = spec_delete srv uid sent
   \<and> (fst (fst (moveEmailToTrash srv uid sent)) \<longrightarrow>
        snd (fst (moveEmailToTrash srv uid sent)) = ''Email deleted permanently''
        \<or> (\<exists>folder \<in> set trashFolders.
              snd (fst (moveEmailToTrash srv uid sent)) = ''Email moved to '' @ folder
              \<and> last (snd (moveEmailToTrash srv uid sent)) = UidMove uid folder))"
proof -
  obtain r sent1 where l: "trash_loop srv uid trashFolders sent = (r, sent1)"
    by (cases "trash_loop srv uid trashFolders sent")
  then have s: "spec_attempts srv uid
      [''Trash'', ''INBOX.Trash'', ''Deleted Messages'', ''INBOX.Deleted Messages''] sent
      = (r, sent1)"
    by (simp add: trash_loop_spec [symmetric] trashFolders_def)
  show ?thesis
  proof (cases r)
    case (Some f)
    have mem: "f \<in> set trashFolders"
      using l Some by (auto dest: trash_loop_folder)
    have la: "last sent1 = UidMove uid f"
      using l Some by (auto dest: trash_loop_last)
    have m: "moveEmailToTrash srv uid sent = ((True, ''Email moved to '' @ f), sent1)"
      using l Some by (simp add: moveEmailToTrash_def)
    have sp: "spec_delete srv uid sent = (True, sent1)"
      using s Some by (simp add: spec_delete_def)
    show ?thesis
      using m sp mem la by auto
  next
    case None
    have sp: "spec_delete srv uid sent = run_steps srv (fallback_steps uid) sent1"
      using s None by (simp add: spec_delete_def)
    have m1: "(fst (fst (moveEmailToTrash srv uid sent)), snd (moveEmailToTrash srv uid sent))
        = run_steps srv (fallback_steps uid) sent1"
      using l None
      by (simp add: moveEmailToTrash_def issue_def fallback_steps_def split: option.splits)
    have m2: "fst (fst (moveEmailToTrash srv uid sent)) \<longrightarrow>
        snd (fst (moveEmailToTrash srv uid sent)) = ''Email deleted permanently''"
      using l None
      by (simp add: moveEmailToTrash_def issue_def split: option.splits)
    show ?thesis
      using m1 m2 sp by simp
  qed
qed

theorem moveEmailToTrash_refines_spec_witness:
  "moveEmailToTrash only_inbox_trash 7 [] =
     ((True, ''Email moved to INBOX.Trash''),
      [Select ''Trash'', Select ''INBOX.Trash'', Select ''INBOX'', UidMove 7 ''INBOX.Trash''])
   \<and> spec_delete only_inbox_trash 7 [] =
     (True, [Select ''Trash'', Select ''INBOX.Trash'', Select ''INBOX'', UidMove 7 ''INBOX.Trash''])
   \<and> moveEmailToTrash no_trash_folder 7 [] =
     ((True, ''Email deleted permanently''),
      [Select ''Trash'', Select ''INBOX.Trash'', Select ''Deleted Messages'',
       Select ''INBOX.Deleted Messages'', Select ''INBOX'', UidStoreDeleted 7, Expunge])"
proof -
  have e1: "moveEmailToTrash only_inbox_trash 7 [] =
     ((True, ''Email moved to INBOX.Trash''),
      [Select ''Trash'', Select ''INBOX.Trash'', Select ''INBOX'', UidMove 7 ''INBOX.Trash''])"
    by (simp add: moveEmailToTrash_def trashFolders_def issue_def only_inbox_trash_def)
  have e2: "moveEmailToTrash no_trash_folder 7 [] =
     ((True, ''Email deleted permanently''),
      [Select ''Trash'', Select ''INBOX.Trash'', Select ''Deleted Messages'',
       Select ''INBOX.Deleted Messages'', Select ''INBOX'', UidStoreDeleted 7, Expunge])"
    by (simp add: moveEmailToTrash_def trashFolders_def issue_def no_trash_folder_def)
  from moveEmailToTrash_refines_spec [of only_inbox_trash 7 "[]"] e1 e2 show ?thesis
    by simp
qed

end
